theory Spec2Isabelle
  imports Complex_Main "HOL-Library.Log_Nat" "HOL-Library.Sublist"
begin

section \<open>JavaScript values used by the routes and the dashboard\<close>

subsection \<open>Strings\<close>

text \<open>
  A JavaScript string is modelled as a \<^typ>\<open>string\<close>: a list of 8-bit characters, so
  the texts covered are the ones whose code units lie in Latin-1. All literals of the
  source are ASCII.
\<close>

text \<open>\<^verbatim>\<open>s.includes(k)\<close>: \<open>k\<close> occurs in \<open>s\<close> as a contiguous substring.\<close>

fun str_includes :: "string \<Rightarrow> string \<Rightarrow> bool" where
  "str_includes [] k = (k = [])"
| "str_includes (c # cs) k = (prefix k (c # cs) \<or> str_includes cs k)"

text \<open>
  \<^verbatim>\<open>s.toLowerCase()\<close> on Latin-1: \<open>A\<close>..\<open>Z\<close> and the accented capitals
  U+00C0..U+00DE (without the multiplication sign U+00D7) move up by 32.
\<close>

definition lower_char :: "char \<Rightarrow> char" where
  "lower_char c =
     (let n = (of_char c :: nat)
      in if (65 \<le> n \<and> n \<le> 90) \<or> (192 \<le> n \<and> n \<le> 222 \<and> n \<noteq> 215)
         then char_of (n + 32) else c)"

definition toLowerCase :: "string \<Rightarrow> string" where
  "toLowerCase s = map lower_char s"

text \<open>
  \<^verbatim>\<open>s.trim()\<close> removes leading and trailing white space and line terminators; in
  Latin-1 these are TAB, LF, VT, FF, CR, SPACE and NBSP.
\<close>

definition is_ws :: "char \<Rightarrow> bool" where
  "is_ws c = (of_char c \<in> {9, 10, 11, 12, 13, 32, 160 :: nat})"

definition trim :: "string \<Rightarrow> string" where
  "trim s = rev (dropWhile is_ws (rev (dropWhile is_ws s)))"

text \<open>Truthiness of a string: only the empty string is falsy.\<close>

definition truthy_str :: "string \<Rightarrow> bool" where
  "truthy_str s = (s \<noteq> [])"

subsection \<open>Numbers\<close>

text \<open>
  A JavaScript number is an IEEE 754 binary64 value. It is modelled by the rational it
  denotes; every arithmetic operation computes the exact result and rounds it to the
  nearest binary64 value, ties to even. The rounding below covers the normal range,
  which contains every value the routes compute.
\<close>

definition pow2 :: "int \<Rightarrow> rat" where
  "pow2 e = (if 0 \<le> e then 2 ^ nat e else 1 / 2 ^ nat (- e))"

text \<open>\<open>ilog2 q\<close> is the binary exponent of \<open>q > 0\<close>: \<open>2^e \<le> q < 2^(e+1)\<close>.\<close>

definition ilog2 :: "rat \<Rightarrow> int" where
  "ilog2 q = (let (a, b) = quotient_of q; d = bitlen a - bitlen b
              in if pow2 d \<le> q then d else d - 1)"

definition round_half_even :: "rat \<Rightarrow> int" where
  "round_half_even q =
     (let f = \<lfloor>q\<rfloor>; r = q - of_int f
      in if r < 1 / 2 then f else if 1 / 2 < r then f + 1
         else if even f then f else f + 1)"

text \<open>Rounding a positive rational to 53 significant bits.\<close>

definition fl_pos :: "rat \<Rightarrow> rat" where
  "fl_pos q = (let e = ilog2 q - 52 in of_int (round_half_even (q / pow2 e)) * pow2 e)"

definition fl :: "rat \<Rightarrow> rat" where
  "fl q = (if q = 0 then 0 else if 0 < q then fl_pos q else - fl_pos (- q))"

text \<open>The operators \<^verbatim>\<open>*\<close> and \<^verbatim>\<open>-\<close> on numbers, and the decimal literals of the source.\<close>

definition js_mul :: "rat \<Rightarrow> rat \<Rightarrow> rat" where
  "js_mul a b = fl (a * b)"

definition js_sub :: "rat \<Rightarrow> rat \<Rightarrow> rat" where
  "js_sub a b = fl (a - b)"

definition lit_0_15 :: rat where
  "lit_0_15 = fl (15 / 100)"

definition lit_0_7 :: rat where
  "lit_0_7 = fl (7 / 10)"


section \<open>The analysis route (\<^verbatim>\<open>POST /api/analyze\<close>)\<close>

text \<open>
  Both variants of the route differ in the prompt only; the processing of the generated
  text is the same.
\<close>

definition uncertaintyKeywords :: "string list" where
  "uncertaintyKeywords =
     [''uncertain'', ''unclear'', ''not sure'', ''might'', ''possibly'', ''perhaps'',
      ''maybe'', ''could be'', ''unclear'', ''unknown'', ''hard to tell'',
      ''difficult to determine'', ''not certain'', ''ambiguous'']"

text \<open>\<^verbatim>\<open>uncertaintyKeywords.filter((keyword) => lowerText.includes(keyword)).length\<close>\<close>

definition uncertaintyCount :: "string \<Rightarrow> nat" where
  "uncertaintyCount lowerText =
     length (filter (\<lambda>keyword. str_includes lowerText keyword) uncertaintyKeywords)"

text \<open>\<^verbatim>\<open>Math.max(0, 1 - uncertaintyCount * 0.15)\<close>\<close>

definition confidence_of :: "nat \<Rightarrow> rat" where
  "confidence_of n = max 0 (js_sub 1 (js_mul (of_nat n) lit_0_15))"

record AnalysisResult =
  r_text :: string
  r_confidence :: rat
  r_isUncertain :: bool

text \<open>The body of the JSON response, from the text the model generated.\<close>

definition analysis_of :: "string \<Rightarrow> AnalysisResult" where
  "analysis_of text =
     (let lowerText = toLowerCase text;
          n = uncertaintyCount lowerText;
          confidence = confidence_of n;
          isUncertain = (confidence < lit_0_7 \<or> 3 \<le> n)
      in \<lparr>r_text = text, r_confidence = confidence, r_isUncertain = isUncertain\<rparr>)"

text \<open>
  The handler has no \<^verbatim>\<open>try\<close>. In \<^verbatim>\<open>const { ingredients } = await req.json()\<close> the
  promise rejects on a body that is not JSON, and the destructuring throws a
  \<^verbatim>\<open>TypeError\<close> when the parsed body is \<^verbatim>\<open>null\<close>; on every other JSON value the field
  is read, and is \<^verbatim>\<open>undefined\<close> (\<open>None\<close>) when absent. A failing model call makes
  \<^verbatim>\<open>await model.generateContent(prompt)\<close> reject. In each of these cases the handler
  throws and returns no response.
\<close>

datatype route_error =
    RequestBodyNotJson
  | RequestBodyNull
  | UpstreamRejected
  | BodyReadRejected

datatype request = MalformedBody | NullBody | JsonBody "string option"

text \<open>
  The second argument is what the model call gives when the handler reaches it: \<open>None\<close>
  when it rejects, else the generated text.
\<close>

definition analyze_POST :: "request \<Rightarrow> string option \<Rightarrow> route_error + AnalysisResult" where
  "analyze_POST req generated =
     (case req of
        MalformedBody \<Rightarrow> Inl RequestBodyNotJson
      | NullBody \<Rightarrow> Inl RequestBodyNull
      | JsonBody ingredients \<Rightarrow>
          (case generated of
             None \<Rightarrow> Inl UpstreamRejected
           | Some text \<Rightarrow> Inr (analysis_of text)))"


section \<open>The speech route (\<^verbatim>\<open>POST /api/speak\<close>)\<close>






section \<open>The dashboard page\<close>

subsection \<open>State\<close>

text \<open>
  At run time \<^verbatim>\<open>aiState\<close> holds a string: the type \<^verbatim>\<open>AIState\<close> of the page is a union of
  string literals, which the compiler erases. \<^verbatim>\<open>src/config/copilotAnimations.ts\<close> maps
  each value to its animation; its keys are the seven values.
\<close>

type_synonym AIState = string

definition copilotAnimations :: "(AIState \<times> string) list" where
  "copilotAnimations =
     [(''idle'', ''/copilot/idle.webm''),
      (''listening'', ''/copilot/listening.webm''),
      (''thinking'', ''/copilot/thinking.webm''),
      (''speaking'', ''/copilot/speaking.webm''),
      (''unsure'', ''/copilot/unsure.webm''),
      (''warning'', ''/copilot/warning.webm''),
      (''laugh'', ''/copilot/laugh.webm'')]"

definition AIState_values :: "AIState list" where
  "AIState_values = map fst copilotAnimations"

text \<open>
  Calls to collaborators and assignments of \<^verbatim>\<open>aiState\<close>, logged in program order.
\<close>

datatype action =
    SetAiState AIState
  | FetchAnalyze string
  | FetchSpeak string
  | AudioPlay
  | RevokeObjectURL
  | SynthCancel
  | SynthSpeak string
  | GetUserMedia
  | TrackStop nat
  | RecognitionStart
  | RecognitionStop
  | RecognitionAbort

text \<open>
  The callbacks handed to \<^verbatim>\<open>setTimeout\<close>, each with the values its closure captured.
\<close>

datatype callback =
    ResetIdle
  | SafetyNet AIState
  | TypingDebounce string bool

record timer =
  t_id :: nat
  t_due :: nat
  t_cb :: callback

text \<open>
  What waits behind an \<^verbatim>\<open>await\<close> or an attached event handler: the rest of
  \<^verbatim>\<open>handleAnalyze\<close>, the rest of \<^verbatim>\<open>speakText\<close> (with the text of its closure), an
  \<^verbatim>\<open>Audio\<close> element that was told to play, an utterance handed to the browser, the rest
  of \<^verbatim>\<open>handleStartListening\<close>.
\<close>

datatype continuation =
    KAnalyze
  | KSpeak string
  | KAudio
  | KUtterance
  | KMicProbe

record Dashboard =
  aiState :: AIState
  ingredients :: string
  analyzing :: bool
  analysisResult :: "string option"
  analysisError :: string
  listening :: bool
  speaking :: bool
  speechRecognitionSupported :: bool
  micError :: "string option"
  recognitionRef :: bool
  synthesisRef :: bool
  now :: nat
  nextTimer :: nat
  timers :: "timer list"
  speakingCleanup :: "nat option"
  typingCleanup :: "nat option"
  r_aiState :: AIState
  r_ingredients :: string
  r_analyzing :: bool
  r_listening :: bool
  nextOp :: nat
  pending :: "(nat \<times> continuation) list"
  history :: "action list"

text \<open>
  \<open>recognitionRef\<close> and \<open>synthesisRef\<close> say whether the ref holds an object;
  \<open>synthesisRef\<close> holds one exactly when \<^verbatim>\<open>"speechSynthesis" in window\<close>. The fields
  \<open>r_\<close>\<dots> are the dependency values of the last render, \<open>speakingCleanup\<close> and
  \<open>typingCleanup\<close> the timer held by the cleanup function of each effect.
\<close>

definition setAiState :: "AIState \<Rightarrow> Dashboard \<Rightarrow> Dashboard" where
  "setAiState v s = s\<lparr>aiState := v, history := history s @ [SetAiState v]\<rparr>"

definition call :: "action \<Rightarrow> Dashboard \<Rightarrow> Dashboard" where
  "call a s = s\<lparr>history := history s @ [a]\<rparr>"

definition setTimeout :: "callback \<Rightarrow> nat \<Rightarrow> Dashboard \<Rightarrow> Dashboard" where
  "setTimeout cb ms s =
     s\<lparr>timers := timers s @ [\<lparr>t_id = nextTimer s, t_due = now s + ms, t_cb = cb\<rparr>],
       nextTimer := Suc (nextTimer s)\<rparr>"

definition clearTimeout :: "nat \<Rightarrow> Dashboard \<Rightarrow> Dashboard" where
  "clearTimeout i s = s\<lparr>timers := filter (\<lambda>t. t_id t \<noteq> i) (timers s)\<rparr>"

text \<open>Suspending at an \<^verbatim>\<open>await\<close>, or attaching the handlers of a started operation.\<close>

definition suspend :: "continuation \<Rightarrow> Dashboard \<Rightarrow> Dashboard" where
  "suspend k s = s\<lparr>pending := pending s @ [(nextOp s, k)], nextOp := Suc (nextOp s)\<rparr>"

text \<open>
  Page load. The arguments say whether the browser has \<^verbatim>\<open>SpeechRecognition\<close> and
  \<^verbatim>\<open>speechSynthesis\<close>.
\<close>

definition mount :: "bool \<Rightarrow> bool \<Rightarrow> Dashboard" where
  "mount hasRecognition hasSynthesis =
     \<lparr>aiState = ''idle'', ingredients = [], analyzing = False, analysisResult = None,
      analysisError = [], listening = False, speaking = False,
      speechRecognitionSupported = hasRecognition,
      micError = (if hasRecognition then None
         else Some ''Speech recognition is not supported in your browser. Please use Chrome, Edge, or Safari.''),
      recognitionRef = hasRecognition, synthesisRef = hasSynthesis,
      now = 0, nextTimer = 0, timers = [], speakingCleanup = None, typingCleanup = None,
      r_aiState = ''idle'', r_ingredients = [], r_analyzing = False, r_listening = False,
      nextOp = 0, pending = [], history = []\<rparr>"

subsection \<open>Speech output\<close>

text \<open>\<^verbatim>\<open>speakWithBrowserTTS\<close>; the choice of the voice does not touch the state.\<close>

definition speakWithBrowserTTS :: "string \<Rightarrow> Dashboard \<Rightarrow> Dashboard" where
  "speakWithBrowserTTS text s =
     (if \<not> synthesisRef s then
        setAiState ''idle''
          (s\<lparr>analysisError :=
             ''Your browser doesn't support speech synthesis. Please use Chrome, Edge, or Safari.''\<rparr>)
      else
        suspend KUtterance (call (SynthSpeak text) (call SynthCancel (setAiState ''speaking'' s))))"

definition utterance_onend :: "Dashboard \<Rightarrow> Dashboard" where
  "utterance_onend s = setAiState ''idle'' s"

definition utterance_onerror :: "Dashboard \<Rightarrow> Dashboard" where
  "utterance_onerror s =
     setAiState ''idle'' (s\<lparr>analysisError := ''Failed to speak text. Please try again.''\<rparr>)"

text \<open>\<^verbatim>\<open>speakText\<close> up to \<^verbatim>\<open>await fetch("/api/speak", ...)\<close>.\<close>

definition speakText :: "string \<Rightarrow> Dashboard \<Rightarrow> Dashboard" where
  "speakText text s = suspend (KSpeak text) (call (FetchSpeak text) (setAiState ''speaking'' s))"

text \<open>
  The response as \<^verbatim>\<open>speakText\<close> reads it. \<open>res_json\<close> is what \<^verbatim>\<open>res.json()\<close> gives:
  no JSON, the JSON value \<^verbatim>\<open>null\<close>, or an object with its \<^verbatim>\<open>error\<close> field (empty
  when absent) and the truthiness of its \<^verbatim>\<open>useBrowserTTS\<close> field. \<open>res_bodyReadable\<close>
  says whether \<^verbatim>\<open>res.text()\<close> and \<^verbatim>\<open>res.blob()\<close> resolve.
\<close>

datatype error_body = NotJson | JsonNull | ErrorData string bool

record speak_response =
  res_ok :: bool
  res_status :: nat
  res_json :: error_body
  res_contentType :: "string option"
  res_bodyReadable :: bool
  res_blobSize :: nat

record js_error =
  err_name :: string
  err_message :: string

text \<open>The outer \<^verbatim>\<open>catch\<close> of \<^verbatim>\<open>speakText\<close>.\<close>

definition speakText_catch :: "Dashboard \<Rightarrow> Dashboard" where
  "speakText_catch s =
     setAiState ''idle''
       (s\<lparr>analysisError :=
          ''Failed to generate speech. Please check your internet connection and try again.''\<rparr>)"

text \<open>The branch \<^verbatim>\<open>if (!res.ok)\<close>, once \<^verbatim>\<open>errorData\<close> is an object.\<close>

definition speakText_not_ok :: "string \<Rightarrow> nat \<Rightarrow> string \<Rightarrow> bool \<Rightarrow> Dashboard \<Rightarrow> Dashboard" where
  "speakText_not_ok text st err useBrowserTTS s =
     (if useBrowserTTS then speakWithBrowserTTS text s
      else
        setAiState ''idle''
          (s\<lparr>analysisError :=
             (if truthy_str err then err
              else if st = 401 then
                ''Text-to-speech API key not configured. Please add ELEVENLABS_API_KEY to .env.local''
              else ''Failed to generate speech. Please try again.'')\<rparr>))"

text \<open>
  \<^verbatim>\<open>speakText\<close> from the settled \<^verbatim>\<open>fetch\<close> to \<^verbatim>\<open>audio.play()\<close>. \<open>None\<close> is a rejected
  \<^verbatim>\<open>fetch\<close>. The argument \<open>i\<close> is the operation that resumes; the started \<^verbatim>\<open>Audio\<close>
  element keeps it.
\<close>

definition speakText_fetched :: "nat \<Rightarrow> string \<Rightarrow> speak_response option \<Rightarrow> Dashboard \<Rightarrow> Dashboard" where
  "speakText_fetched i text outcome s =
     (case outcome of
        None \<Rightarrow> speakText_catch s
      | Some res \<Rightarrow>
          if \<not> res_ok res then
            (case res_json res of
               NotJson \<Rightarrow> speakText_not_ok text (res_status res) ''Unknown error'' False s
             | JsonNull \<Rightarrow> speakText_catch s
             | ErrorData err useBrowserTTS \<Rightarrow>
                 speakText_not_ok text (res_status res) err useBrowserTTS s)
          else if (case res_contentType res of
                     None \<Rightarrow> True
                   | Some contentType \<Rightarrow>
                       \<not> truthy_str contentType \<or> \<not> str_includes contentType ''audio'') then
            (if \<not> res_bodyReadable res then speakText_catch s
             else
               setAiState ''idle''
                 (s\<lparr>analysisError :=
                    ''Invalid audio response. Please check your API configuration.''\<rparr>))
          else if \<not> res_bodyReadable res then speakText_catch s
          else if res_blobSize res = 0 then
            setAiState ''idle'' (s\<lparr>analysisError := ''Empty audio response. Please try again.''\<rparr>)
          else (call AudioPlay s)\<lparr>pending := pending s @ [(i, KAudio)]\<rparr>)"

text \<open>The \<^verbatim>\<open>catch (playError)\<close> around \<^verbatim>\<open>await audio.play()\<close>.\<close>

definition audio_play_rejected :: "js_error \<Rightarrow> Dashboard \<Rightarrow> Dashboard" where
  "audio_play_rejected playError s =
     call RevokeObjectURL
       (setAiState ''idle''
          (s\<lparr>analysisError :=
             (if err_name playError = ''NotAllowedError'' then
                ''Audio playback blocked by browser. Please click to interact with the page first, then try again.''
              else if err_name playError = ''NotSupportedError'' then
                ''Audio format not supported. The API may have returned an invalid audio format. Please check your ElevenLabs API key and configuration.''
              else if truthy_str (err_message playError) then
                ''Audio playback error: '' @ err_message playError
              else ''Failed to play audio. Please try again.'')\<rparr>))"

definition audio_onended :: "Dashboard \<Rightarrow> Dashboard" where
  "audio_onended s = call RevokeObjectURL (setAiState ''idle'' s)"

text \<open>Decimal digits of a number, for the template string of \<^verbatim>\<open>audio.onerror\<close>.\<close>

fun digits :: "nat \<Rightarrow> string" where
  "digits n =
     (if n < 10 then [char_of (48 + n)] else digits (n div 10) @ [char_of (48 + n mod 10)])"

declare digits.simps [simp del]

text \<open>
  \<^verbatim>\<open>audio.onerror\<close>; the argument is \<^verbatim>\<open>audio.error\<close>: \<open>None\<close> for \<^verbatim>\<open>null\<close>, else the
  code and the message of the \<^verbatim>\<open>MediaError\<close>.
\<close>

definition audio_onerror :: "(nat \<times> string) option \<Rightarrow> Dashboard \<Rightarrow> Dashboard" where
  "audio_onerror error s =
     call RevokeObjectURL
       (setAiState ''idle''
          (s\<lparr>analysisError :=
             (case error of
                None \<Rightarrow> ''Failed to play audio.''
              | Some (code, message) \<Rightarrow>
                  if code = 1 then ''Audio playback was aborted.''
                  else if code = 2 then ''Network error while loading audio.''
                  else if code = 3 then
                    ''Audio format not supported or corrupted. The API may have returned invalid audio data. Please check your ElevenLabs API key.''
                  else if code = 4 then
                    ''Audio format not supported by your browser. The API may have returned an invalid format. Please check your ElevenLabs API configuration.''
                  else
                    ''Audio playback error (code '' @ digits code @ ''): ''
                    @ (if truthy_str message then message else ''Unknown error'')
                    @ ''. Please check your ElevenLabs API key in .env.local'')\<rparr>))"

definition handleStopSpeaking :: "Dashboard \<Rightarrow> Dashboard" where
  "handleStopSpeaking s =
     (if synthesisRef s then setAiState ''idle'' ((call SynthCancel s)\<lparr>speaking := False\<rparr>) else s)"


subsection \<open>Analysis\<close>

text \<open>\<^verbatim>\<open>handleAnalyze\<close> up to \<^verbatim>\<open>await fetch("/api/analyze", ...)\<close>.\<close>

definition handleAnalyze :: "Dashboard \<Rightarrow> Dashboard" where
  "handleAnalyze s =
     (if \<not> truthy_str (trim (ingredients s)) then
        setTimeout ResetIdle 3000
          (setAiState ''warning'' (s\<lparr>analysisError := ''Please enter ingredients to analyze''\<rparr>))
      else
        suspend KAnalyze
          (call (FetchAnalyze (ingredients s))
             ((setAiState ''thinking'' s)
                \<lparr>analyzing := True, analysisError := [], analysisResult := None\<rparr>)))"

text \<open>
  The parsed body of the response: \<^verbatim>\<open>text\<close>, and the optional \<^verbatim>\<open>confidence\<close> and
  \<^verbatim>\<open>isUncertain\<close> (\<open>None\<close> when the field is absent).
\<close>

record analyze_data =
  d_text :: string
  d_confidence :: "rat option"
  d_isUncertain :: "bool option"

text \<open>
  The branch \<^verbatim>\<open>if (!response.ok)\<close> and the \<^verbatim>\<open>catch\<close> block run the same statements.
\<close>

definition handleAnalyze_failed :: "Dashboard \<Rightarrow> Dashboard" where
  "handleAnalyze_failed s =
     setTimeout ResetIdle 5000
       (setAiState ''warning''
          (s\<lparr>analysisError := ''Something went wrong. Please try again.'', analyzing := False\<rparr>))"

text \<open>\<^verbatim>\<open>data.isUncertain || (data.confidence && data.confidence < 0.7)\<close>\<close>

definition uncertain_or_low :: "analyze_data \<Rightarrow> bool" where
  "uncertain_or_low data =
     ((case d_isUncertain data of None \<Rightarrow> False | Some b \<Rightarrow> b)
      \<or> (case d_confidence data of None \<Rightarrow> False | Some c \<Rightarrow> c \<noteq> 0 \<and> c < lit_0_7))"

text \<open>
  \<^verbatim>\<open>handleAnalyze\<close> after the response arrived. \<open>None\<close>: \<^verbatim>\<open>fetch\<close> or
  \<^verbatim>\<open>response.json()\<close> rejected, or the body is not an object; else \<^verbatim>\<open>response.ok\<close> and
  the parsed body.
\<close>

definition handleAnalyze_resume :: "(bool \<times> analyze_data) option \<Rightarrow> Dashboard \<Rightarrow> Dashboard" where
  "handleAnalyze_resume outcome s =
     (case outcome of
        None \<Rightarrow> handleAnalyze_failed s
      | Some (response_ok, data) \<Rightarrow>
          if \<not> response_ok then handleAnalyze_failed s
          else
            (let s1 = s\<lparr>analysisResult := Some (d_text data), analyzing := False\<rparr>
             in if uncertain_or_low data then
                  (let s2 = setAiState ''unsure'' s1
                   in if truthy_str (d_text data) then speakText (d_text data) s2
                      else setAiState ''idle'' s2)
                else
                  (if truthy_str (d_text data) then speakText (d_text data) s1
                   else setAiState ''idle'' s1)))"

subsection \<open>The mascot\<close>

text \<open>
  \<^verbatim>\<open>handleCopilotClick\<close>, from the variant of the page that passes \<^verbatim>\<open>onClick\<close> to the
  mascot; its other handlers are those of \<^verbatim>\<open>src/app/dashboard/page.tsx\<close>.
\<close>

definition handleCopilotClick :: "Dashboard \<Rightarrow> Dashboard" where
  "handleCopilotClick s = setTimeout ResetIdle 3000 (setAiState ''laugh'' s)"

subsection \<open>Speech capture\<close>

text \<open>What the calls in the \<^verbatim>\<open>try\<close> block of \<^verbatim>\<open>handleStopListening\<close> do.\<close>

datatype stop_outcome = StopOk | StopThrows | AbortThrows

definition handleStopListening :: "stop_outcome \<Rightarrow> Dashboard \<Rightarrow> Dashboard" where
  "handleStopListening out s =
     (if recognitionRef s \<and> listening s then
        (case out of
           StopOk \<Rightarrow>
             (setAiState ''idle''
                ((call RecognitionAbort (call RecognitionStop s))\<lparr>listening := False\<rparr>))
               \<lparr>micError := None\<rparr>
         | StopThrows \<Rightarrow>
             call RecognitionAbort (setAiState ''idle'' (s\<lparr>listening := False\<rparr>))
         | AbortThrows \<Rightarrow>
             setAiState ''idle'' ((call RecognitionStop s)\<lparr>listening := False\<rparr>))
      else s)"

text \<open>\<^verbatim>\<open>handleStartListening\<close> up to \<^verbatim>\<open>await navigator.mediaDevices.getUserMedia(...)\<close>.\<close>

definition handleStartListening :: "stop_outcome \<Rightarrow> Dashboard \<Rightarrow> Dashboard" where
  "handleStartListening out s =
     (if \<not> recognitionRef s then
        s\<lparr>micError := Some ''Speech recognition not initialized. Please refresh the page.''\<rparr>
      else if listening s then handleStopListening out s
      else suspend KMicProbe (call GetUserMedia s))"

text \<open>
  The permission probe either resolves with a stream of some tracks, after which
  \<^verbatim>\<open>recognition.start()\<close> returns or throws, or rejects with an error.
\<close>

datatype probe = Granted nat "js_error option" | Denied js_error

definition start_failed_message :: "js_error \<Rightarrow> string" where
  "start_failed_message error =
     (if err_name error = ''InvalidStateError'' then
        ''Speech recognition is already running. Please wait.''
      else if truthy_str (err_message error) then err_message error
      else ''Failed to start speech recognition.'')"

definition probe_denied_message :: "js_error \<Rightarrow> string" where
  "probe_denied_message error =
     (if err_name error = ''NotAllowedError'' \<or> err_name error = ''PermissionDeniedError'' then
        ''Microphone permission denied. Please allow microphone access in your browser settings and try again.''
      else if err_name error = ''NotFoundError'' \<or> err_name error = ''DevicesNotFoundError'' then
        ''No microphone found. Please connect a microphone and try again.''
      else if err_name error = ''NotReadableError'' \<or> err_name error = ''TrackStartError'' then
        ''Microphone is being used by another application. Please close other apps using the microphone.''
      else if truthy_str (err_message error) then err_message error
      else ''Microphone access denied.'')"

text \<open>\<^verbatim>\<open>stream.getTracks().forEach((track) => track.stop())\<close>\<close>

definition stop_tracks :: "nat \<Rightarrow> Dashboard \<Rightarrow> Dashboard" where
  "stop_tracks n s = s\<lparr>history := history s @ map TrackStop [0..<n]\<rparr>"

definition handleStartListening_resume :: "probe \<Rightarrow> Dashboard \<Rightarrow> Dashboard" where
  "handleStartListening_resume p s =
     (case p of
        Granted tracks started \<Rightarrow>
          (let s1 = stop_tracks tracks s
           in case started of
                None \<Rightarrow> setAiState ''listening'' ((call RecognitionStart s1)\<lparr>micError := None\<rparr>)
              | Some error \<Rightarrow>
                  setAiState ''idle''
                    (s1\<lparr>micError := Some (start_failed_message error), listening := False\<rparr>))
      | Denied error \<Rightarrow>
          setAiState ''idle''
            (s\<lparr>micError := Some (probe_denied_message error), listening := False\<rparr>))"

text \<open>
  The handlers of the recognition object. \<open>None\<close> in \<open>recognition_onresult\<close>: reading
  \<^verbatim>\<open>event.results[0][0].transcript\<close> throws.
\<close>

definition recognition_onresult :: "string option \<Rightarrow> Dashboard \<Rightarrow> Dashboard" where
  "recognition_onresult transcript s =
     (case transcript of
        Some t \<Rightarrow>
          (setAiState ''idle''
             (s\<lparr>ingredients :=
                  ingredients s @ (if truthy_str (ingredients s) then '' '' else []) @ t,
                listening := False\<rparr>))
            \<lparr>micError := None\<rparr>
      | None \<Rightarrow>
          setAiState ''idle''
            (s\<lparr>micError := Some ''Failed to process speech. Please try again.'',
               listening := False\<rparr>))"

definition recognition_error_message :: "string \<Rightarrow> string" where
  "recognition_error_message error =
     (if error = ''no-speech'' then ''No speech detected. Please try again.''
      else if error = ''audio-capture'' then
        ''Microphone not found or not accessible. Please check your microphone permissions.''
      else if error = ''not-allowed'' then
        ''Microphone permission denied. Please allow microphone access in your browser settings.''
      else if error = ''network'' then ''Network error. Please check your internet connection.''
      else if error = ''aborted'' then ''Speech recognition was aborted.''
      else if error = ''service-not-allowed'' then
        ''Speech recognition service not allowed. Please check your browser settings.''
      else ''Speech recognition error: '' @ error @ ''. Please try again.'')"

definition recognition_onerror :: "string \<Rightarrow> Dashboard \<Rightarrow> Dashboard" where
  "recognition_onerror error s =
     (setAiState ''idle'' (s\<lparr>listening := False\<rparr>))
       \<lparr>micError := Some (recognition_error_message error)\<rparr>"

definition recognition_onstart :: "Dashboard \<Rightarrow> Dashboard" where
  "recognition_onstart s = setAiState ''listening'' (s\<lparr>micError := None, listening := True\<rparr>)"

definition recognition_onend :: "Dashboard \<Rightarrow> Dashboard" where
  "recognition_onend s = setAiState ''idle'' (s\<lparr>listening := False\<rparr>)"


subsection \<open>Effects\<close>

text \<open>
  The effect with dependency \<^verbatim>\<open>[aiState]\<close>: the ten-second safety net of
  \<^verbatim>\<open>speaking\<close>. Its cleanup clears the timer it scheduled.
\<close>

definition speakingEffect :: "Dashboard \<Rightarrow> Dashboard" where
  "speakingEffect s =
     (if aiState s = ''speaking'' then
        (setTimeout (SafetyNet (aiState s)) 10000 s)\<lparr>speakingCleanup := Some (nextTimer s)\<rparr>
      else s\<lparr>speakingCleanup := None\<rparr>)"

definition speakingEffect_cleanup :: "Dashboard \<Rightarrow> Dashboard" where
  "speakingEffect_cleanup s =
     (case speakingCleanup s of None \<Rightarrow> s | Some timer \<Rightarrow> clearTimeout timer s)"

text \<open>
  The effect with dependencies \<^verbatim>\<open>[ingredients, analyzing, listening]\<close>: the debounce of
  typing.
\<close>

definition typingEffect :: "Dashboard \<Rightarrow> Dashboard" where
  "typingEffect s =
     (if truthy_str (trim (ingredients s)) \<and> \<not> analyzing s \<and> \<not> listening s then
        (setTimeout (TypingDebounce (ingredients s) (analyzing s)) 500 s)
          \<lparr>typingCleanup := Some (nextTimer s)\<rparr>
      else if \<not> truthy_str (trim (ingredients s)) \<and> aiState s = ''listening'' \<and> \<not> analyzing s then
        (setAiState ''idle'' s)\<lparr>typingCleanup := None\<rparr>
      else s\<lparr>typingCleanup := None\<rparr>)"

definition typingEffect_cleanup :: "Dashboard \<Rightarrow> Dashboard" where
  "typingEffect_cleanup s =
     (case typingCleanup s of None \<Rightarrow> s | Some timer \<Rightarrow> clearTimeout timer s)"

text \<open>
  One render: an effect whose dependencies differ from those of the last render has its
  cleanup run and then its body. The state an effect body sets is seen by the next render.
\<close>

definition render :: "Dashboard \<Rightarrow> Dashboard" where
  "render s =
     (let speakingDeps = (aiState s \<noteq> r_aiState s);
          typingDeps = (ingredients s \<noteq> r_ingredients s \<or> analyzing s \<noteq> r_analyzing s
                        \<or> listening s \<noteq> r_listening s);
          s0 = s\<lparr>r_aiState := aiState s, r_ingredients := ingredients s,
                 r_analyzing := analyzing s, r_listening := listening s\<rparr>;
          s1 = (if speakingDeps then speakingEffect_cleanup s0 else s0);
          s2 = (if typingDeps then typingEffect_cleanup s1 else s1);
          s3 = (if speakingDeps then speakingEffect s2 else s2)
      in if typingDeps then typingEffect s3 else s3)"

text \<open>
  After a handler has run, the page renders; the typing effect may set the state once
  more, which the second render takes up.
\<close>

definition commit :: "Dashboard \<Rightarrow> Dashboard" where
  "commit s = render (render s)"

subsection \<open>Timers\<close>

definition run_callback :: "callback \<Rightarrow> Dashboard \<Rightarrow> Dashboard" where
  "run_callback cb s =
     (case cb of
        ResetIdle \<Rightarrow> setAiState ''idle'' s
      | SafetyNet closure_aiState \<Rightarrow>
          if closure_aiState = ''speaking'' then setAiState ''idle'' s else s
      | TypingDebounce closure_ingredients closure_analyzing \<Rightarrow>
          if truthy_str (trim closure_ingredients) \<and> \<not> closure_analyzing
          then setAiState ''listening'' s else s)"

text \<open>The pending timer that is due first; among equals, the one scheduled first.\<close>

fun earliest :: "timer list \<Rightarrow> timer option" where
  "earliest [] = None"
| "earliest (t # ts) =
     (case earliest ts of
        None \<Rightarrow> Some t
      | Some u \<Rightarrow> if t_due t \<le> t_due u then Some t else Some u)"

definition fire :: "timer \<Rightarrow> Dashboard \<Rightarrow> Dashboard" where
  "fire t s =
     commit (run_callback (t_cb t)
       (s\<lparr>now := t_due t, timers := filter (\<lambda>u. t_id u \<noteq> t_id t) (timers s)\<rparr>))"

text \<open>
  Firing the timers that are due up to time \<open>T\<close>, in order. No callback schedules a
  timer, so each round removes one; the number of pending timers bounds the rounds.
\<close>

fun fire_due :: "nat \<Rightarrow> nat \<Rightarrow> Dashboard \<Rightarrow> Dashboard" where
  "fire_due 0 T s = s"
| "fire_due (Suc n) T s =
     (case earliest (timers s) of
        None \<Rightarrow> s
      | Some t \<Rightarrow> if t_due t \<le> T then fire_due n T (fire t s) else s)"

definition elapse :: "nat \<Rightarrow> Dashboard \<Rightarrow> Dashboard" where
  "elapse ms s = (fire_due (length (timers s)) (now s + ms) s)\<lparr>now := now s + ms\<rparr>"

subsection \<open>Events\<close>

datatype outcome =
    AnalyzeSettled "(bool \<times> analyze_data) option"
  | SpeakSettled "speak_response option"
  | PlayRejected js_error
  | AudioEnded
  | AudioError "(nat \<times> string) option"
  | UtteranceEnded
  | UtteranceFailed
  | ProbeSettled probe

text \<open>A continuation runs on the outcome of the operation it waits for.\<close>

definition resume :: "nat \<Rightarrow> continuation \<Rightarrow> outcome \<Rightarrow> Dashboard \<Rightarrow> Dashboard option" where
  "resume i k out s =
     (case k of
        KAnalyze \<Rightarrow>
          (case out of AnalyzeSettled r \<Rightarrow> Some (handleAnalyze_resume r s) | _ \<Rightarrow> None)
      | KSpeak text \<Rightarrow>
          (case out of SpeakSettled r \<Rightarrow> Some (speakText_fetched i text r s) | _ \<Rightarrow> None)
      | KAudio \<Rightarrow>
          (case out of
             PlayRejected e \<Rightarrow> Some (audio_play_rejected e s)
           | AudioEnded \<Rightarrow> Some (audio_onended s)
           | AudioError e \<Rightarrow> Some (audio_onerror e s)
           | _ \<Rightarrow> None)
      | KUtterance \<Rightarrow>
          (case out of
             UtteranceEnded \<Rightarrow> Some (utterance_onend s)
           | UtteranceFailed \<Rightarrow> Some (utterance_onerror s)
           | _ \<Rightarrow> None)
      | KMicProbe \<Rightarrow>
          (case out of ProbeSettled p \<Rightarrow> Some (handleStartListening_resume p s) | _ \<Rightarrow> None))"

definition settle :: "nat \<Rightarrow> outcome \<Rightarrow> Dashboard \<Rightarrow> Dashboard" where
  "settle i out s =
     (case map_of (pending s) i of
        None \<Rightarrow> s
      | Some k \<Rightarrow>
          (case resume i k out (s\<lparr>pending := filter (\<lambda>p. fst p \<noteq> i) (pending s)\<rparr>) of
             None \<Rightarrow> s
           | Some s' \<Rightarrow> commit s'))"

text \<open>
  What reaches the page: input in the text area, clicks on the controls as they are
  rendered (the Analyze button is disabled while the input is blank, an analysis runs or
  capture is on; the microphone button exists when recognition is supported and stops or
  starts by \<^verbatim>\<open>listening\<close>; the Stop button exists while \<^verbatim>\<open>speaking\<close>), the settling of
  a pending operation, the events of the recognition object, and the passing of time.
\<close>

datatype event =
    Type string
  | ClickAnalyze
  | ClickMascot
  | ClickMic stop_outcome
  | ClickStopSpeaking
  | Settle nat outcome
  | RecognitionStarted
  | RecognitionResult "string option"
  | RecognitionError string
  | RecognitionEnded
  | Elapse nat

definition analyze_disabled :: "Dashboard \<Rightarrow> bool" where
  "analyze_disabled s = (\<not> truthy_str (trim (ingredients s)) \<or> analyzing s \<or> listening s)"

fun step :: "event \<Rightarrow> Dashboard \<Rightarrow> Dashboard" where
  "step (Type v) s = commit (s\<lparr>ingredients := v\<rparr>)"
| "step ClickAnalyze s = (if analyze_disabled s then s else commit (handleAnalyze s))"
| "step ClickMascot s = commit (handleCopilotClick s)"
| "step (ClickMic out) s =
     (if \<not> speechRecognitionSupported s then s
      else if listening s then commit (handleStopListening out s)
      else commit (handleStartListening out s))"
| "step ClickStopSpeaking s = (if speaking s then commit (handleStopSpeaking s) else s)"
| "step (Settle i out) s = settle i out s"
| "step RecognitionStarted s = (if recognitionRef s then commit (recognition_onstart s) else s)"
| "step (RecognitionResult t) s =
     (if recognitionRef s then commit (recognition_onresult t s) else s)"
| "step (RecognitionError e) s =
     (if recognitionRef s then commit (recognition_onerror e s) else s)"
| "step RecognitionEnded s = (if recognitionRef s then commit (recognition_onend s) else s)"
| "step (Elapse ms) s = elapse ms s"

fun run :: "event list \<Rightarrow> Dashboard \<Rightarrow> Dashboard" where
  "run [] s = s"
| "run (e # es) s = run es (step e s)"


section \<open>Inputs of the examples\<close>

text \<open>An analysis the collaborator is sure of, and the audio reply of the speech route.\<close>

definition confident_answer :: analyze_data where
  "confident_answer = \<lparr>d_text = ''fine'', d_confidence = Some 1, d_isUncertain = Some False\<rparr>"

definition audio_reply :: speak_response where
  "audio_reply =
     \<lparr>res_ok = True, res_status = 200, res_json = NotJson,
      res_contentType = Some ''audio/mpeg'', res_bodyReadable = True, res_blobSize = 1000\<rparr>"

text \<open>
  Two analyses in a row, each answered and spoken; the audio of the first is still playing
  when the second starts to play.
\<close>

definition two_playbacks :: "event list" where
  "two_playbacks =
     [Type ''salt'',
      ClickAnalyze, Settle 0 (AnalyzeSettled (Some (True, confident_answer))),
      Settle 1 (SpeakSettled (Some audio_reply)),
      ClickAnalyze, Settle 2 (AnalyzeSettled (Some (True, confident_answer))),
      Settle 3 (SpeakSettled (Some audio_reply))]"

text \<open>A click on the mascot, then an analysis within three seconds.\<close>

definition laugh_then_analyze :: "event list" where
  "laugh_then_analyze = [Type ''salt'', ClickMascot, Elapse 1000, ClickAnalyze]"

text \<open>A failed analysis, then a second attempt within five seconds.\<close>

definition retry_after_failure :: "event list" where
  "retry_after_failure =
     [Type ''salt'', ClickAnalyze, Settle 0 (AnalyzeSettled None), Elapse 2000, ClickAnalyze]"

text \<open>What the page parses from the body the analysis route sends.\<close>

definition as_data :: "AnalysisResult \<Rightarrow> analyze_data" where
  "as_data r =
     \<lparr>d_text = r_text r, d_confidence = Some (r_confidence r),
      d_isUncertain = Some (r_isUncertain r)\<rparr>"

text \<open>
  An analysis whose generated text holds three entries of the lexicon, answered by the
  analysis route of the repository.
\<close>

definition uncertain_reply :: "event list" where
  "uncertain_reply =
     [Type ''salt'', ClickAnalyze,
      Settle 0 (AnalyzeSettled (Some (True, as_data (analysis_of ''Perhaps this is unclear.''))))]"

text \<open>A response with confidence one half.\<close>

definition half_confidence :: analyze_data where
  "half_confidence = \<lparr>d_text = ''ok'', d_confidence = Some (1 / 2), d_isUncertain = None\<rparr>"

text \<open>The reply that asks for the fallback.\<close>

definition fallback_reply :: speak_response where
  "fallback_reply =
     \<lparr>res_ok = False, res_status = 401, res_json = ErrorData ''Unauthorized'' True,
      res_contentType = Some ''application/json'', res_bodyReadable = True, res_blobSize = 0\<rparr>"

text \<open>An analysis was answered and its text is on the way to the speech route.\<close>

definition speak_requested :: "event list" where
  "speak_requested =
     [Type ''salt'', ClickAnalyze, Settle 0 (AnalyzeSettled (Some (True, confident_answer)))]"

text \<open>A granted probe with one audio track, and a denied one.\<close>

definition permission_denied :: js_error where
  "permission_denied = \<lparr>err_name = ''NotAllowedError'', err_message = ''Permission denied''\<rparr>"



section \<open>Auxiliary predicates\<close>

text \<open>
  The timer handle an effect's cleanup holds was issued earlier: it is below the next
  handle \<^verbatim>\<open>setTimeout\<close> will return.
\<close>

definition handles_valid :: "Dashboard \<Rightarrow> bool" where
  "handles_valid s =
     ((\<forall>i. speakingCleanup s = Some i \<longrightarrow> i < nextTimer s)
      \<and> (\<forall>i. typingCleanup s = Some i \<longrightarrow> i < nextTimer s))"

text \<open>A handler leaves the handles of the effects alone and only issues new ones.\<close>

definition keeps_handles :: "Dashboard \<Rightarrow> Dashboard \<Rightarrow> bool" where
  "keeps_handles s s' =
     (speakingCleanup s' = speakingCleanup s \<and> typingCleanup s' = typingCleanup s
      \<and> nextTimer s \<le> nextTimer s')"



text \<open>The dependency values of the last render are the current ones: nothing waits to be rendered.\<close>

definition rendered :: "Dashboard \<Rightarrow> bool" where
  "rendered s =
     (r_aiState s = aiState s \<and> r_ingredients s = ingredients s
      \<and> r_analyzing s = analyzing s \<and> r_listening s = listening s)"

text \<open>
  A pending safety net was scheduled by the speaking effect of the last render, in the
  state \<^verbatim>\<open>speaking\<close>, and is the timer the effect's cleanup holds.
\<close>

definition safety_net_guarded :: "Dashboard \<Rightarrow> bool" where
  "safety_net_guarded s =
     (\<forall>t\<in>set (timers s). \<forall>a. t_cb t = SafetyNet a \<longrightarrow>
        a = ''speaking'' \<and> r_aiState s = ''speaking'' \<and> speakingCleanup s = Some (t_id t))"

text \<open>A handler schedules nothing but resets to idle, and leaves the speaking effect alone.\<close>

definition adds_resets :: "Dashboard \<Rightarrow> Dashboard \<Rightarrow> bool" where
  "adds_resets s s' =
     (r_aiState s' = r_aiState s \<and> speakingCleanup s' = speakingCleanup s
      \<and> (\<forall>t\<in>set (timers s'). t \<in> set (timers s) \<or> t_cb t = ResetIdle))"


text \<open>
  The values in which the page can rest once a handler has run: all but \<^verbatim>\<open>unsure\<close>.
\<close>

definition resting_values :: "AIState list" where
  "resting_values = [''idle'', ''listening'', ''thinking'', ''speaking'', ''warning'', ''laugh'']"

text \<open>
  From \<open>s\<close> to \<open>s'\<close> the state was left alone or ends in a resting value, and every
  value newly assigned is one of the seven.
\<close>

definition assigns_listed :: "Dashboard \<Rightarrow> Dashboard \<Rightarrow> bool" where
  "assigns_listed s s' =
     ((aiState s' = aiState s \<or> aiState s' \<in> set resting_values)
      \<and> (\<forall>v. SetAiState v \<in> set (history s') \<longrightarrow>
             SetAiState v \<in> set (history s) \<or> v \<in> set AIState_values))"

text \<open>The state is a resting value and every value assigned so far is one of the seven.\<close>

definition assigned_valid :: "Dashboard \<Rightarrow> bool" where
  "assigned_valid s =
     (aiState s \<in> set resting_values
      \<and> (\<forall>v. SetAiState v \<in> set (history s) \<longrightarrow> v \<in> set AIState_values))"


section \<open>Properties of the rounding\<close>

lemma pow2_powi: "pow2 e = 2 powi e"
  by (simp add: pow2_def power_int_def power_divide inverse_eq_divide)

lemma pow2_pos [simp]: "0 < pow2 e"
  by (simp add: pow2_powi)

lemma pow2_add: "pow2 (a + b) = pow2 a * pow2 b"
  by (simp add: pow2_powi power_int_add)

lemma pow2_numeral: "pow2 52 = 2 ^ 52" "pow2 53 = 2 ^ 53"
  by (simp_all add: pow2_def)

lemma of_int_bitlen_bounds:
  assumes "0 < a"
  shows "pow2 (bitlen a - 1) \<le> of_int a" and "of_int a < pow2 (bitlen a)"
proof -
  from assms have b: "2 ^ nat (bitlen a - 1) \<le> a" "a < 2 ^ nat (bitlen a)"
    using bitlen_bounds [OF assms] by simp_all
  from assms have ge: "1 \<le> bitlen a"
    by (auto simp: bitlen_alt_def)
  have "(of_int (2 ^ nat (bitlen a - 1)) :: rat) \<le> of_int a"
    using b(1) by (simp only: of_int_le_iff)
  then show "pow2 (bitlen a - 1) \<le> of_int a"
    using ge by (simp add: pow2_def)
  have "(of_int a :: rat) < of_int (2 ^ nat (bitlen a))"
    using b(2) by (simp only: of_int_less_iff)
  then show "of_int a < pow2 (bitlen a)"
    using ge by (simp add: pow2_def)
qed

lemma ilog2_bounds:
  assumes "0 < q"
  shows "pow2 (ilog2 q) \<le> q \<and> q < pow2 (ilog2 q + 1)"
proof -
  obtain a b where ab: "quotient_of q = (a, b)"
    by (cases "quotient_of q")
  then have bpos: "0 < b" and q: "q = of_int a / of_int b"
    by (simp_all add: quotient_of_denom_pos quotient_of_div)
  from assms q bpos have apos: "0 < a"
    by (simp add: zero_less_divide_iff)
  define d where "d = bitlen a - bitlen b"
  note A = of_int_bitlen_bounds [OF apos] and B = of_int_bitlen_bounds [OF bpos]
  have bq: "(0::rat) < of_int b" using bpos by simp
  have upper: "q < pow2 (d + 1)"
  proof -
    have "of_int a < pow2 (bitlen a)" by (rule A(2))
    also have "pow2 (bitlen a) = pow2 (d + 1) * pow2 (bitlen b - 1)"
      by (simp add: d_def flip: pow2_add)
    also have "\<dots> \<le> pow2 (d + 1) * of_int b"
      using B(1) by (simp add: mult_left_mono less_imp_le)
    finally show ?thesis
      using bq by (simp add: q pos_divide_less_eq)
  qed
  have lower: "pow2 (d - 1) < q"
  proof -
    have "pow2 (d - 1) * of_int b < pow2 (d - 1) * pow2 (bitlen b)"
      using B(2) by (simp add: mult_strict_left_mono)
    also have "\<dots> = pow2 (bitlen a - 1)"
      by (simp add: d_def flip: pow2_add)
    also have "\<dots> \<le> of_int a" by (rule A(1))
    finally show ?thesis
      using bq by (simp add: q pos_less_divide_eq)
  qed
  have il: "ilog2 q = (if pow2 d \<le> q then d else d - 1)"
    by (simp add: ilog2_def ab d_def Let_def)
  show ?thesis
  proof (cases "pow2 d \<le> q")
    case True
    with upper il show ?thesis by simp
  next
    case False
    with lower il show ?thesis by (simp add: less_imp_le)
  qed
qed

lemma round_half_even_near: "\<bar>of_int (round_half_even x) - x\<bar> \<le> 1 / 2"
proof -
  define r where "r = x - of_int \<lfloor>x\<rfloor>"
  have r: "0 \<le> r" "r < 1"
    unfolding r_def by linarith+
  have x: "x = of_int \<lfloor>x\<rfloor> + r"
    by (simp add: r_def)
  have cases: "round_half_even x = \<lfloor>x\<rfloor> \<and> r \<le> 1 / 2
      \<or> round_half_even x = \<lfloor>x\<rfloor> + 1 \<and> 1 / 2 \<le> r"
    by (auto simp: round_half_even_def Let_def r_def)
  then show ?thesis
  proof
    assume a: "round_half_even x = \<lfloor>x\<rfloor> \<and> r \<le> 1 / 2"
    then have "of_int (round_half_even x) - x = - r"
      using x by simp
    with a r show ?thesis by simp
  next
    assume a: "round_half_even x = \<lfloor>x\<rfloor> + 1 \<and> 1 / 2 \<le> r"
    then have "of_int (round_half_even x) - x = 1 - r"
      using x by simp
    with a r show ?thesis by simp
  qed
qed

lemma round_half_even_mono_int:
  assumes "of_int k \<le> x" shows "k \<le> round_half_even x"
proof -
  from assms have "k \<le> \<lfloor>x\<rfloor>" by (simp add: le_floor_iff)
  then show ?thesis
    by (auto simp: round_half_even_def Let_def)
qed

lemma round_half_even_le_int:
  assumes "x \<le> of_int k" shows "round_half_even x \<le> k"
proof -
  have f: "of_int \<lfloor>x\<rfloor> \<le> x" by linarith
  show ?thesis
  proof (cases "x = of_int k")
    case True
    then show ?thesis by (simp add: round_half_even_def Let_def)
  next
    case False
    with assms have "x < of_int k" by simp
    then have "\<lfloor>x\<rfloor> < k" by (simp add: floor_less_iff)
    then show ?thesis
      by (auto simp: round_half_even_def Let_def)
  qed
qed

text \<open>
  The rounding gives a significand of 53 bits at the binary exponent of the argument, and
  the result is at most half a unit in the last place away from the argument.
\<close>

lemma fl_pos_nearest:
  assumes "0 < q"
  shows "\<exists>m. fl_pos q = of_int m * pow2 (ilog2 q - 52)
           \<and> 2 ^ 52 \<le> m \<and> m \<le> 2 ^ 53
           \<and> \<bar>fl_pos q - q\<bar> \<le> pow2 (ilog2 q - 52) / 2"
proof -
  define e where "e = ilog2 q - 52"
  define x where "x = q / pow2 e"
  define m where "m = round_half_even x"
  have fl: "fl_pos q = of_int m * pow2 e"
    by (simp add: fl_pos_def Let_def e_def x_def m_def)
  have il: "pow2 (e + 52) \<le> q" "q < pow2 (e + 53)"
    using ilog2_bounds [OF assms] by (simp_all add: e_def add.commute)
  have x1: "of_int (2 ^ 52) \<le> x"
    using il(1) by (simp add: x_def pos_le_divide_eq pow2_add pow2_numeral mult.commute)
  have x2: "x \<le> of_int (2 ^ 53)"
    using il(2) by (simp add: x_def pos_divide_le_eq pow2_add pow2_numeral mult.commute less_imp_le)
  have m1: "2 ^ 52 \<le> m" unfolding m_def using x1 by (rule round_half_even_mono_int)
  have m2: "m \<le> 2 ^ 53" unfolding m_def using x2 by (rule round_half_even_le_int)
  have ne: "pow2 e \<noteq> 0"
    by (metis pow2_pos less_irrefl)
  have "fl_pos q - q = (of_int m - x) * pow2 e"
    using ne by (simp add: fl x_def algebra_simps)
  moreover have "\<bar>pow2 e\<bar> = pow2 e"
    by (rule abs_of_pos) (rule pow2_pos)
  ultimately have "\<bar>fl_pos q - q\<bar> = \<bar>of_int m - x\<bar> * pow2 e"
    by (simp add: abs_mult)
  also have "\<dots> \<le> (1 / 2) * pow2 e"
    using round_half_even_near [of x] by (intro mult_right_mono) (simp_all add: m_def less_imp_le)
  finally have "\<bar>fl_pos q - q\<bar> \<le> pow2 e / 2" by simp
  with fl m1 m2 show ?thesis
    unfolding e_def by blast
qed


section \<open>Properties of the analysis route\<close>

text \<open>The literals are the binary64 values nearest to 0.7 and 0.15.\<close>

lemma lit_0_7_value: "lit_0_7 = 3152519739159347 / 4503599627370496"
  by code_simp

lemma lit_0_15_value: "lit_0_15 = 5404319552844595 / 36028797018963968"
  by code_simp

lemma confidence_of_0: "confidence_of 0 = 1"
  by code_simp

lemma confidence_of_1: "confidence_of (Suc 0) = 7656119366529843 / 9007199254740992"
  by code_simp

lemma confidence_of_2: "confidence_of 2 = 3152519739159347 / 4503599627370496"
  by code_simp

lemma confidence_of_3: "confidence_of 3 = 2476979795053773 / 4503599627370496"
  by code_simp

lemma confidence_of_4: "confidence_of 4 = 3602879701896397 / 9007199254740992"
  by code_simp

lemma confidence_of_5: "confidence_of 5 = 1 / 4"
  by code_simp

lemma confidence_of_6: "confidence_of 6 = 225179981368525 / 2251799813685248"
  by code_simp

lemma confidence_of_7: "confidence_of 7 = 0"
  by code_simp

lemma confidence_of_8: "confidence_of 8 = 0"
  by code_simp

lemma confidence_of_9: "confidence_of 9 = 0"
  by code_simp

lemma confidence_of_10: "confidence_of 10 = 0"
  by code_simp

lemma confidence_of_11: "confidence_of 11 = 0"
  by code_simp

lemma confidence_of_12: "confidence_of 12 = 0"
  by code_simp

lemma confidence_of_13: "confidence_of 13 = 0"
  by code_simp

lemma confidence_of_14: "confidence_of 14 = 0"
  by code_simp

lemmas confidence_values =
  confidence_of_0 confidence_of_1 confidence_of_2 confidence_of_3 confidence_of_4
  confidence_of_5 confidence_of_6 confidence_of_7 confidence_of_8 confidence_of_9
  confidence_of_10 confidence_of_11 confidence_of_12 confidence_of_13 confidence_of_14

text \<open>The lexicon has fourteen entries, so the count is at most fourteen.\<close>

lemma uncertaintyCount_le: "uncertaintyCount t \<le> 14"
proof -
  have "uncertaintyCount t \<le> length uncertaintyKeywords"
    unfolding uncertaintyCount_def by (rule length_filter_le)
  also have "length uncertaintyKeywords = 14"
    by (simp add: uncertaintyKeywords_def)
  finally show ?thesis .
qed

lemma confidence_small:
  assumes "n \<le> 14"
  shows "0 \<le> confidence_of n \<and> confidence_of n \<le> 1 \<and> (confidence_of n < lit_0_7 \<longleftrightarrow> 3 \<le> n)"
proof -
  have counts: "[0..<15] = [0, Suc 0, 2, 3, 4, 5, 6, 7, 8, 9, 10, 11, 12, 13, 14]"
    by (simp add: upt_rec)
  have "\<forall>k\<in>set [0, Suc 0, 2, 3, 4, 5, 6, 7, 8, 9, 10, 11, 12, 13, 14].
      0 \<le> confidence_of k \<and> confidence_of k \<le> 1 \<and> (confidence_of k < lit_0_7 \<longleftrightarrow> 3 \<le> k)"
    by (simp add: confidence_values lit_0_7_value)
  then have "\<forall>k\<in>set [0..<15].
      0 \<le> confidence_of k \<and> confidence_of k \<le> 1 \<and> (confidence_of k < lit_0_7 \<longleftrightarrow> 3 \<le> k)"
    by (simp only: counts)
  moreover from assms have "n \<in> set [0..<15]"
    by simp
  ultimately show ?thesis
    by blast
qed

text \<open>
  C8. For every text the model generates, the confidence the analysis route returns is
  \<^verbatim>\<open>Math.max(0, 1 - uncertaintyCount * 0.15)\<close> over the count of the lowercased text, and
  lies between 0 and 1.
\<close>

theorem confidence_in_unit_interval:
  "r_confidence (analysis_of text) = confidence_of (uncertaintyCount (toLowerCase text))
   \<and> 0 \<le> r_confidence (analysis_of text) \<and> r_confidence (analysis_of text) \<le> 1
   \<and> (analyze_POST req generated = Inr res \<longrightarrow> 0 \<le> r_confidence res \<and> r_confidence res \<le> 1)"
proof -
  have bounds: "0 \<le> r_confidence (analysis_of t) \<and> r_confidence (analysis_of t) \<le> 1" for t
    using confidence_small [OF uncertaintyCount_le, of "toLowerCase t"]
    by (simp add: analysis_of_def Let_def)
  have "r_confidence (analysis_of text) = confidence_of (uncertaintyCount (toLowerCase text))"
    by (simp add: analysis_of_def Let_def)
  moreover have "analyze_POST req generated = Inr res \<longrightarrow>
      0 \<le> r_confidence res \<and> r_confidence res \<le> 1"
    using bounds by (auto simp: analyze_POST_def split: request.splits option.splits)
  ultimately show ?thesis
    using bounds by blast
qed

theorem confidence_in_unit_interval_witness:
  "analyze_POST (JsonBody (Some ''sugar, E621'')) (Some ''It is UNCLEAR; this might be fine, maybe.'')
     = Inr (analysis_of ''It is UNCLEAR; this might be fine, maybe.'')
   \<and> r_confidence (analysis_of ''It is UNCLEAR; this might be fine, maybe.'')
     = confidence_of 4
   \<and> 0 \<le> confidence_of 4 \<and> confidence_of 4 \<le> 1"
proof -
  have n: "uncertaintyCount (toLowerCase ''It is UNCLEAR; this might be fine, maybe.'') = 4"
    by code_simp
  have p: "analyze_POST (JsonBody (Some ''sugar, E621''))
      (Some ''It is UNCLEAR; this might be fine, maybe.'')
     = Inr (analysis_of ''It is UNCLEAR; this might be fine, maybe.'')"
    by (simp add: analyze_POST_def)
  from n p
    confidence_in_unit_interval [of "''It is UNCLEAR; this might be fine, maybe.''"
      "JsonBody (Some ''sugar, E621'')" "Some ''It is UNCLEAR; this might be fine, maybe.''"
      "analysis_of ''It is UNCLEAR; this might be fine, maybe.''"]
  show ?thesis by simp
qed

text \<open>
  C10. The flag \<^verbatim>\<open>isUncertain\<close> of the analysis route is true exactly when the count of
  lexicon entries found in the lowercased text is at least 3, and so is
  \<^verbatim>\<open>confidence < 0.7\<close>: that disjunct adds nothing. The count tallies entries of the
  lexicon, where \<^verbatim>\<open>"unclear"\<close> stands twice: a text that contains it gets 2 for it.
\<close>

theorem isUncertain_iff_count:
  "(r_isUncertain (analysis_of text) \<longleftrightarrow> 3 \<le> uncertaintyCount (toLowerCase text))
   \<and> (r_confidence (analysis_of text) < lit_0_7 \<longleftrightarrow> 3 \<le> uncertaintyCount (toLowerCase text))
   \<and> count_list uncertaintyKeywords ''unclear'' = 2
   \<and> uncertaintyCount lowerText =
       (if str_includes lowerText ''unclear'' then 2 else 0)
       + length (filter (\<lambda>keyword. str_includes lowerText keyword)
           (filter (\<lambda>keyword. keyword \<noteq> ''unclear'') uncertaintyKeywords))"
proof -
  have a: "r_isUncertain (analysis_of text) \<longleftrightarrow> 3 \<le> uncertaintyCount (toLowerCase text)"
    using confidence_small [OF uncertaintyCount_le, of "toLowerCase text"]
    by (simp add: analysis_of_def Let_def)
  have b: "r_confidence (analysis_of text) < lit_0_7 \<longleftrightarrow> 3 \<le> uncertaintyCount (toLowerCase text)"
    using confidence_small [OF uncertaintyCount_le, of "toLowerCase text"]
    by (simp add: analysis_of_def Let_def)
  have c: "count_list uncertaintyKeywords ''unclear'' = 2"
    by (simp add: uncertaintyKeywords_def)
  have d: "uncertaintyCount lowerText =
       (if str_includes lowerText ''unclear'' then 2 else 0)
       + length (filter (\<lambda>keyword. str_includes lowerText keyword)
           (filter (\<lambda>keyword. keyword \<noteq> ''unclear'') uncertaintyKeywords))"
    by (simp add: uncertaintyCount_def uncertaintyKeywords_def)
  from a b c d show ?thesis by blast
qed

theorem isUncertain_iff_count_witness:
  "r_isUncertain (analysis_of ''It is UNCLEAR; this might be fine, maybe.'')
   \<and> uncertaintyCount (toLowerCase ''It is UNCLEAR; this might be fine, maybe.'') = 4
   \<and> \<not> r_isUncertain (analysis_of ''This is unclear.'')
   \<and> uncertaintyCount (toLowerCase ''This is unclear.'') = 2"
proof -
  have a: "uncertaintyCount (toLowerCase ''It is UNCLEAR; this might be fine, maybe.'') = 4"
    by code_simp
  have b: "uncertaintyCount (toLowerCase ''This is unclear.'') = 2"
    by code_simp
  from a b
    isUncertain_iff_count [of "''It is UNCLEAR; this might be fine, maybe.''" "[]"]
    isUncertain_iff_count [of "''This is unclear.''" "[]"]
  show ?thesis by simp
qed


section \<open>Properties of the speech route\<close>





section \<open>Properties of the dashboard page\<close>

lemmas page_defs =
  setAiState_def call_def setTimeout_def clearTimeout_def suspend_def mount_def
  speakWithBrowserTTS_def utterance_onend_def utterance_onerror_def speakText_def
  speakText_catch_def speakText_not_ok_def speakText_fetched_def audio_play_rejected_def
  audio_onended_def audio_onerror_def handleStopSpeaking_def handleAnalyze_def
  handleAnalyze_failed_def uncertain_or_low_def handleAnalyze_resume_def handleCopilotClick_def
  handleStopListening_def handleStartListening_def stop_tracks_def handleStartListening_resume_def
  recognition_onresult_def recognition_onerror_def recognition_onstart_def recognition_onend_def
  speakingEffect_def speakingEffect_cleanup_def typingEffect_def typingEffect_cleanup_def
  render_def commit_def run_callback_def fire_def elapse_def resume_def settle_def
  analyze_disabled_def truthy_str_def trim_def is_ws_def

lemmas example_defs =
  confident_answer_def audio_reply_def two_playbacks_def laugh_then_analyze_def
  retry_after_failure_def half_confidence_def fallback_reply_def as_data_def
  uncertain_reply_def
  speak_requested_def permission_denied_def

subsection \<open>Effects and rendering\<close>

lemma speakingEffect_cleanup_frame [simp]:
  "aiState (speakingEffect_cleanup s) = aiState s"
  "ingredients (speakingEffect_cleanup s) = ingredients s"
  "analyzing (speakingEffect_cleanup s) = analyzing s"
  "listening (speakingEffect_cleanup s) = listening s"
  "analysisError (speakingEffect_cleanup s) = analysisError s"
  "now (speakingEffect_cleanup s) = now s"
  "nextTimer (speakingEffect_cleanup s) = nextTimer s"
  "speakingCleanup (speakingEffect_cleanup s) = speakingCleanup s"
  "typingCleanup (speakingEffect_cleanup s) = typingCleanup s"
  "pending (speakingEffect_cleanup s) = pending s"
  "history (speakingEffect_cleanup s) = history s"
  "timers (speakingEffect_cleanup s) =
     filter (\<lambda>t. Some (t_id t) \<noteq> speakingCleanup s) (timers s)"
  by (simp_all add: speakingEffect_cleanup_def clearTimeout_def split: option.splits)

lemma typingEffect_cleanup_frame [simp]:
  "aiState (typingEffect_cleanup s) = aiState s"
  "ingredients (typingEffect_cleanup s) = ingredients s"
  "analyzing (typingEffect_cleanup s) = analyzing s"
  "listening (typingEffect_cleanup s) = listening s"
  "analysisError (typingEffect_cleanup s) = analysisError s"
  "now (typingEffect_cleanup s) = now s"
  "nextTimer (typingEffect_cleanup s) = nextTimer s"
  "speakingCleanup (typingEffect_cleanup s) = speakingCleanup s"
  "typingCleanup (typingEffect_cleanup s) = typingCleanup s"
  "pending (typingEffect_cleanup s) = pending s"
  "history (typingEffect_cleanup s) = history s"
  "timers (typingEffect_cleanup s) =
     filter (\<lambda>t. Some (t_id t) \<noteq> typingCleanup s) (timers s)"
  by (simp_all add: typingEffect_cleanup_def clearTimeout_def split: option.splits)

lemma speakingEffect_frame [simp]:
  "aiState (speakingEffect s) = aiState s"
  "ingredients (speakingEffect s) = ingredients s"
  "analyzing (speakingEffect s) = analyzing s"
  "listening (speakingEffect s) = listening s"
  "analysisError (speakingEffect s) = analysisError s"
  "now (speakingEffect s) = now s"
  "typingCleanup (speakingEffect s) = typingCleanup s"
  "pending (speakingEffect s) = pending s"
  "history (speakingEffect s) = history s"
  by (simp_all add: speakingEffect_def setTimeout_def)

lemma speakingEffect_timers:
  "aiState s \<noteq> ''speaking'' \<Longrightarrow> timers (speakingEffect s) = timers s"
  "aiState s \<noteq> ''speaking'' \<Longrightarrow> nextTimer (speakingEffect s) = nextTimer s"
  "aiState s \<noteq> ''speaking'' \<Longrightarrow> speakingCleanup (speakingEffect s) = None"
  by (simp_all add: speakingEffect_def)

lemma typingEffect_frame [simp]:
  "ingredients (typingEffect s) = ingredients s"
  "analyzing (typingEffect s) = analyzing s"
  "listening (typingEffect s) = listening s"
  "analysisError (typingEffect s) = analysisError s"
  "now (typingEffect s) = now s"
  "speakingCleanup (typingEffect s) = speakingCleanup s"
  "pending (typingEffect s) = pending s"
  by (simp_all add: typingEffect_def setTimeout_def setAiState_def)

lemma aiState_typingEffect:
  "aiState (typingEffect s) =
     (if \<not> truthy_str (trim (ingredients s)) \<and> aiState s = ''listening'' \<and> \<not> analyzing s
      then ''idle'' else aiState s)"
  by (simp add: typingEffect_def setTimeout_def setAiState_def)

lemma typingEffect_blank:
  "\<not> truthy_str (trim (ingredients s)) \<Longrightarrow> timers (typingEffect s) = timers s"
  "\<not> truthy_str (trim (ingredients s)) \<Longrightarrow> nextTimer (typingEffect s) = nextTimer s"
  "\<not> truthy_str (trim (ingredients s)) \<Longrightarrow> typingCleanup (typingEffect s) = None"
  by (simp_all add: typingEffect_def setAiState_def)

lemma aiState_render:
  "aiState (render s) =
     (if (ingredients s \<noteq> r_ingredients s \<or> analyzing s \<noteq> r_analyzing s
          \<or> listening s \<noteq> r_listening s)
         \<and> \<not> truthy_str (trim (ingredients s)) \<and> aiState s = ''listening'' \<and> \<not> analyzing s
      then ''idle'' else aiState s)"
  by (simp add: render_def Let_def aiState_typingEffect)

lemma aiState_render_keep: "aiState s \<noteq> ''listening'' \<Longrightarrow> aiState (render s) = aiState s"
  by (simp add: aiState_render)

lemma aiState_commit_keep: "aiState s \<noteq> ''listening'' \<Longrightarrow> aiState (commit s) = aiState s"
  by (simp add: commit_def aiState_render_keep)

lemma render_frame [simp]:
  "ingredients (render s) = ingredients s"
  "analyzing (render s) = analyzing s"
  "listening (render s) = listening s"
  "analysisError (render s) = analysisError s"
  "now (render s) = now s"
  "pending (render s) = pending s"
  by (simp_all add: render_def Let_def)

lemma commit_frame [simp]:
  "ingredients (commit s) = ingredients s"
  "analyzing (commit s) = analyzing s"
  "listening (commit s) = listening s"
  "analysisError (commit s) = analysisError s"
  "now (commit s) = now s"
  "pending (commit s) = pending s"
  by (simp_all add: commit_def)

lemma speakingEffect_frame2 [simp]:
  "r_aiState (speakingEffect s) = r_aiState s"
  "r_ingredients (speakingEffect s) = r_ingredients s"
  "r_analyzing (speakingEffect s) = r_analyzing s"
  "r_listening (speakingEffect s) = r_listening s"
  by (simp_all add: speakingEffect_def setTimeout_def)

lemma render_quiet:
  assumes "aiState s \<noteq> ''speaking''" and "\<not> truthy_str (trim (ingredients s))"
    and "aiState s \<noteq> ''listening''"
    and "\<forall>t\<in>set (timers s). Some (t_id t) \<noteq> speakingCleanup s \<and> Some (t_id t) \<noteq> typingCleanup s"
  shows "timers (render s) = timers s"
    and "speakingCleanup (render s) = None \<or> speakingCleanup (render s) = speakingCleanup s"
    and "typingCleanup (render s) = None \<or> typingCleanup (render s) = typingCleanup s"
proof -
  from assms(4) have f1: "filter (\<lambda>t. Some (t_id t) \<noteq> speakingCleanup s) (timers s) = timers s"
    and f2: "filter (\<lambda>t. Some (t_id t) \<noteq> typingCleanup s) (timers s) = timers s"
    by (simp_all add: filter_id_conv)
  show "timers (render s) = timers s"
    using assms(1,2) f1 f2
    by (simp add: render_def Let_def typingEffect_blank speakingEffect_timers)
  show "speakingCleanup (render s) = None \<or> speakingCleanup (render s) = speakingCleanup s"
    using assms(1,2)
    by (simp add: render_def Let_def typingEffect_blank speakingEffect_timers)
  show "typingCleanup (render s) = None \<or> typingCleanup (render s) = typingCleanup s"
    using assms(1,2)
    by (simp add: render_def Let_def typingEffect_blank speakingEffect_timers)
qed

lemma commit_quiet:
  assumes "aiState s \<noteq> ''speaking''" and "\<not> truthy_str (trim (ingredients s))"
    and "aiState s \<noteq> ''listening''"
    and "\<forall>t\<in>set (timers s). Some (t_id t) \<noteq> speakingCleanup s \<and> Some (t_id t) \<noteq> typingCleanup s"
  shows "timers (commit s) = timers s" and "aiState (commit s) = aiState s"
proof -
  have a: "aiState (render s) = aiState s"
    using assms(3) by (rule aiState_render_keep)
  have t: "timers (render s) = timers s"
    using assms by (rule render_quiet(1))
  have h: "\<forall>t\<in>set (timers (render s)).
      Some (t_id t) \<noteq> speakingCleanup (render s) \<and> Some (t_id t) \<noteq> typingCleanup (render s)"
    using render_quiet(2,3) [OF assms] assms(4) t by auto
  show "timers (commit s) = timers s"
    unfolding commit_def
    using render_quiet(1) [of "render s"] a t h assms(1,2,3) by simp
  show "aiState (commit s) = aiState s"
    using assms(3) by (rule aiState_commit_keep)
qed

subsection \<open>Pending timers\<close>

lemma effects_rendered_frame [simp]:
  "r_aiState (speakingEffect_cleanup s) = r_aiState s"
  "r_ingredients (speakingEffect_cleanup s) = r_ingredients s"
  "r_analyzing (speakingEffect_cleanup s) = r_analyzing s"
  "r_listening (speakingEffect_cleanup s) = r_listening s"
  "r_aiState (typingEffect_cleanup s) = r_aiState s"
  "r_ingredients (typingEffect_cleanup s) = r_ingredients s"
  "r_analyzing (typingEffect_cleanup s) = r_analyzing s"
  "r_listening (typingEffect_cleanup s) = r_listening s"
  "r_aiState (typingEffect s) = r_aiState s"
  "r_ingredients (typingEffect s) = r_ingredients s"
  "r_analyzing (typingEffect s) = r_analyzing s"
  "r_listening (typingEffect s) = r_listening s"
  by (simp_all add: speakingEffect_cleanup_def typingEffect_cleanup_def typingEffect_def
      clearTimeout_def setTimeout_def setAiState_def split: option.splits)

lemma render_rendered_fields [simp]:
  "r_aiState (render s) = aiState s"
  "r_ingredients (render s) = ingredients s"
  "r_analyzing (render s) = analyzing s"
  "r_listening (render s) = listening s"
  by (simp_all add: render_def Let_def)

lemma rendered_commit: "rendered (commit s)"
  by (simp add: rendered_def commit_def aiState_render)

text \<open>A render with unchanged typing dependencies, in a state other than a fresh
  \<^verbatim>\<open>speaking\<close>, schedules nothing.\<close>

lemma length_timers_render:
  assumes "r_ingredients u = ingredients u" and "r_analyzing u = analyzing u"
    and "r_listening u = listening u"
    and "aiState u \<noteq> ''speaking'' \<or> aiState u = r_aiState u"
  shows "length (timers (render u)) \<le> length (timers u)"
  using assms
  by (auto simp: render_def Let_def speakingEffect_timers)

lemma length_timers_commit:
  assumes "r_ingredients u = ingredients u" and "r_analyzing u = analyzing u"
    and "r_listening u = listening u"
    and "aiState u \<noteq> ''speaking'' \<or> aiState u = r_aiState u"
  shows "length (timers (commit u)) \<le> length (timers u)"
proof -
  have "length (timers (render (render u))) \<le> length (timers (render u))"
    by (rule length_timers_render) (simp_all add: aiState_render assms(1,2,3))
  also have "\<dots> \<le> length (timers u)"
    using assms by (rule length_timers_render)
  finally show ?thesis by (simp add: commit_def)
qed

lemma run_callback_frame [simp]:
  "timers (run_callback cb s) = timers s"
  "ingredients (run_callback cb s) = ingredients s"
  "analyzing (run_callback cb s) = analyzing s"
  "listening (run_callback cb s) = listening s"
  "r_aiState (run_callback cb s) = r_aiState s"
  "r_ingredients (run_callback cb s) = r_ingredients s"
  "r_analyzing (run_callback cb s) = r_analyzing s"
  "r_listening (run_callback cb s) = r_listening s"
  by (simp_all add: run_callback_def setAiState_def split: callback.splits)

lemma aiState_run_callback:
  "aiState (run_callback cb s) \<noteq> ''speaking'' \<or> aiState (run_callback cb s) = aiState s"
  by (simp add: run_callback_def setAiState_def split: callback.splits)

lemma fire_removes:
  assumes "rendered s" and "t \<in> set (timers s)"
  shows "length (timers (fire t s)) < length (timers s)"
proof -
  define s' where "s' = s\<lparr>now := t_due t, timers := filter (\<lambda>u. t_id u \<noteq> t_id t) (timers s)\<rparr>"
  have less: "length (timers s') < length (timers s)"
    unfolding s'_def using assms(2) by (auto intro: length_filter_less)
  have r: "rendered s'"
    using assms(1) by (simp add: rendered_def s'_def)
  have "length (timers (commit (run_callback (t_cb t) s'))) \<le> length (timers (run_callback (t_cb t) s'))"
    using r aiState_run_callback [of "t_cb t" s']
    by (intro length_timers_commit) (auto simp: rendered_def)
  with less show ?thesis
    by (simp add: fire_def s'_def)
qed

lemma earliest_None: "earliest ts = None \<longleftrightarrow> ts = []"
  by (induction ts) (auto split: option.splits)

lemma earliest_Some:
  "earliest ts = Some t \<Longrightarrow> t \<in> set ts \<and> (\<forall>u\<in>set ts. t_due t \<le> t_due u)"
  by (induction ts arbitrary: t) (fastforce split: option.splits if_splits simp: earliest_None)+

lemma rendered_fire: "rendered (fire t s)"
  by (simp add: fire_def rendered_commit)

text \<open>The number of pending timers is enough fuel: afterwards no pending timer is due.\<close>

lemma fire_due_complete:
  "rendered s \<Longrightarrow> length (timers s) \<le> n \<Longrightarrow> \<forall>u\<in>set (timers (fire_due n T s)). T < t_due u"
proof (induction n arbitrary: s)
  case 0
  then show ?case by simp
next
  case (Suc n)
  show ?case
  proof (cases "earliest (timers s)")
    case None
    then show ?thesis by (simp add: earliest_None)
  next
    case (Some t)
    note e = earliest_Some [OF Some]
    show ?thesis
    proof (cases "t_due t \<le> T")
      case True
      from e Suc.prems have "length (timers (fire t s)) \<le> n"
        using fire_removes [of s t] by simp
      with Suc.IH [OF rendered_fire] True Some show ?thesis by simp
    next
      case False
      with e Some show ?thesis by fastforce
    qed
  qed
qed

lemma elapse_complete:
  assumes "rendered s"
  shows "\<forall>u\<in>set (timers (elapse ms s)). now s + ms < t_due u"
  using fire_due_complete [OF assms le_refl, of "now s + ms"]
  by (simp add: elapse_def)

lemma rendered_fire_due: "rendered s \<Longrightarrow> rendered (fire_due n T s)"
  by (induction n arbitrary: s) (auto simp: rendered_fire split: option.splits)

lemma rendered_now [simp]: "rendered (s\<lparr>now := n\<rparr>) = rendered s"
  by (simp add: rendered_def)

lemma rendered_step: "rendered s \<Longrightarrow> rendered (step e s)"
  by (cases e)
    (auto simp: rendered_commit settle_def elapse_def rendered_fire_due split: option.splits)

lemma rendered_run: "rendered s \<Longrightarrow> rendered (run evs s)"
  by (induction evs arbitrary: s) (simp_all add: rendered_step)

lemma rendered_reachable: "rendered (run evs (mount hasRecognition hasSynthesis))"
  by (rule rendered_run) (simp add: rendered_def mount_def)

lemma elapse_fires_all_due:
  "\<forall>u\<in>set (timers (elapse ms (run evs (mount hasRecognition hasSynthesis)))).
     now (run evs (mount hasRecognition hasSynthesis)) + ms < t_due u"
  by (rule elapse_complete [OF rendered_reachable])

subsection \<open>The safety net of speaking\<close>

lemma guarded_kept: "safety_net_guarded s \<Longrightarrow> adds_resets s s' \<Longrightarrow> safety_net_guarded s'"
  by (fastforce simp: safety_net_guarded_def adds_resets_def)

lemma adds_resets_refl [simp]: "adds_resets s s"
  by (simp add: adds_resets_def)

lemma adds_speakWithBrowserTTS: "adds_resets s (speakWithBrowserTTS text s)"
  by (simp add: adds_resets_def speakWithBrowserTTS_def setAiState_def call_def suspend_def)

lemma adds_speakText_fetched: "adds_resets s (speakText_fetched i text r s)"
  using adds_speakWithBrowserTTS [of s "text"]
  by (simp add: adds_resets_def speakText_fetched_def speakText_not_ok_def speakText_catch_def
      setAiState_def call_def split: option.splits error_body.splits)

lemma adds_handleAnalyze: "adds_resets s (handleAnalyze s)"
  by (simp add: adds_resets_def handleAnalyze_def setTimeout_def setAiState_def call_def
      suspend_def)

lemma adds_handleAnalyze_resume: "adds_resets s (handleAnalyze_resume r s)"
  by (simp add: adds_resets_def handleAnalyze_resume_def handleAnalyze_failed_def speakText_def
      setTimeout_def setAiState_def call_def suspend_def Let_def split: option.splits prod.splits)

lemma adds_audio:
  "adds_resets s (audio_onended s)"
  "adds_resets s (audio_onerror e s)"
  "adds_resets s (audio_play_rejected err s)"
  "adds_resets s (utterance_onend s)"
  "adds_resets s (utterance_onerror s)"
  "adds_resets s (handleStopSpeaking s)"
  "adds_resets s (handleCopilotClick s)"
  by (simp_all add: adds_resets_def audio_onended_def audio_onerror_def audio_play_rejected_def
      utterance_onend_def utterance_onerror_def handleStopSpeaking_def handleCopilotClick_def
      setTimeout_def setAiState_def call_def)

lemma adds_listening:
  "adds_resets s (handleStopListening out s)"
  "adds_resets s (handleStartListening out s)"
  "adds_resets s (handleStartListening_resume p s)"
  "adds_resets s (recognition_onstart s)"
  "adds_resets s (recognition_onresult t s)"
  "adds_resets s (recognition_onerror e s)"
  "adds_resets s (recognition_onend s)"
  by (simp_all add: adds_resets_def handleStopListening_def handleStartListening_def
      handleStartListening_resume_def stop_tracks_def recognition_onstart_def
      recognition_onresult_def recognition_onerror_def recognition_onend_def
      setAiState_def call_def suspend_def Let_def
      split: stop_outcome.splits probe.splits option.splits)

lemma adds_run_callback: "adds_resets s (run_callback cb s)"
  by (simp add: adds_resets_def run_callback_def setAiState_def split: callback.splits)

lemma guarded_typingEffect_cleanup:
  "safety_net_guarded s \<Longrightarrow> safety_net_guarded (typingEffect_cleanup s)"
  by (auto simp: safety_net_guarded_def)

lemma guarded_typingEffect: "safety_net_guarded s \<Longrightarrow> safety_net_guarded (typingEffect s)"
  by (auto simp: safety_net_guarded_def typingEffect_def setTimeout_def setAiState_def)

lemma no_safety_net_after_cleanup:
  assumes "safety_net_guarded s"
    and "timers u = timers s" and "speakingCleanup u = speakingCleanup s"
  shows "\<forall>t\<in>set (timers (speakingEffect_cleanup u)). \<forall>a. t_cb t \<noteq> SafetyNet a"
  using assms by (auto simp: safety_net_guarded_def)

lemma guarded_speakingEffect:
  assumes "\<forall>t\<in>set (timers u). \<forall>a. t_cb t \<noteq> SafetyNet a" and "r_aiState u = aiState u"
  shows "safety_net_guarded (speakingEffect u)"
  using assms by (auto simp: safety_net_guarded_def speakingEffect_def setTimeout_def)

lemma guarded_render: "safety_net_guarded s \<Longrightarrow> safety_net_guarded (render s)"
proof -
  assume g: "safety_net_guarded s"
  define s0 where "s0 = s\<lparr>r_aiState := aiState s, r_ingredients := ingredients s,
                 r_analyzing := analyzing s, r_listening := listening s\<rparr>"
  define typingDeps where "typingDeps \<longleftrightarrow> ingredients s \<noteq> r_ingredients s
    \<or> analyzing s \<noteq> r_analyzing s \<or> listening s \<noteq> r_listening s"
  define s3 where "s3 =
    (if aiState s \<noteq> r_aiState s
     then speakingEffect (if typingDeps then typingEffect_cleanup (speakingEffect_cleanup s0)
                          else speakingEffect_cleanup s0)
     else (if typingDeps then typingEffect_cleanup s0 else s0))"
  have r: "render s = (if typingDeps then typingEffect s3 else s3)"
    by (simp add: render_def Let_def s0_def s3_def typingDeps_def)
  have "safety_net_guarded s3"
  proof (cases "aiState s = r_aiState s")
    case True
    then have "safety_net_guarded s0"
      using g by (simp add: safety_net_guarded_def s0_def)
    then show ?thesis
      using True by (simp add: s3_def guarded_typingEffect_cleanup)
  next
    case False
    have n1: "\<forall>t\<in>set (timers (speakingEffect_cleanup s0)). \<forall>a. t_cb t \<noteq> SafetyNet a"
      using g by (rule no_safety_net_after_cleanup) (simp_all add: s0_def)
    then have n2: "\<forall>t\<in>set (timers (typingEffect_cleanup (speakingEffect_cleanup s0))).
        \<forall>a. t_cb t \<noteq> SafetyNet a"
      by simp
    have "safety_net_guarded (speakingEffect (speakingEffect_cleanup s0))"
      using n1 by (rule guarded_speakingEffect) (simp add: s0_def)
    moreover have "safety_net_guarded
        (speakingEffect (typingEffect_cleanup (speakingEffect_cleanup s0)))"
      using n2 by (rule guarded_speakingEffect) (simp add: s0_def)
    ultimately show ?thesis
      using False by (simp add: s3_def)
  qed
  then show ?thesis
    by (simp add: r guarded_typingEffect)
qed

lemma guarded_commit: "safety_net_guarded s \<Longrightarrow> safety_net_guarded (commit s)"
  by (simp add: commit_def guarded_render)

lemma guarded_update [simp]:
  "safety_net_guarded (s\<lparr>pending := p\<rparr>) = safety_net_guarded s"
  "safety_net_guarded (s\<lparr>ingredients := v\<rparr>) = safety_net_guarded s"
  "safety_net_guarded (s\<lparr>now := n\<rparr>) = safety_net_guarded s"
  by (simp_all add: safety_net_guarded_def)

lemma guarded_fire: "safety_net_guarded s \<Longrightarrow> safety_net_guarded (fire t s)"
proof -
  assume g: "safety_net_guarded s"
  have "safety_net_guarded (s\<lparr>now := t_due t, timers := filter (\<lambda>u. t_id u \<noteq> t_id t) (timers s)\<rparr>)"
    using g by (auto simp: safety_net_guarded_def)
  then show ?thesis
    unfolding fire_def
    by (intro guarded_commit guarded_kept [OF _ adds_run_callback])
qed

lemma guarded_fire_due: "safety_net_guarded s \<Longrightarrow> safety_net_guarded (fire_due n T s)"
  by (induction n arbitrary: s) (auto simp: guarded_fire split: option.splits)

lemma guarded_resume:
  assumes "safety_net_guarded s" and "resume i k out s = Some s'"
  shows "safety_net_guarded s'"
proof -
  from assms(2) have "adds_resets s s'"
    by (auto simp: resume_def adds_handleAnalyze_resume adds_speakText_fetched adds_audio
        adds_listening split: continuation.splits outcome.splits)
  with assms(1) show ?thesis by (rule guarded_kept)
qed

lemma guarded_step: "safety_net_guarded s \<Longrightarrow> safety_net_guarded (step e s)"
  by (cases e)
    (auto simp: guarded_commit settle_def elapse_def guarded_fire_due
      guarded_kept [OF _ adds_handleAnalyze] guarded_kept [OF _ adds_audio(6)]
      guarded_kept [OF _ adds_audio(7)] guarded_kept [OF _ adds_listening(1)]
      guarded_kept [OF _ adds_listening(2)] guarded_kept [OF _ adds_listening(4)]
      guarded_kept [OF _ adds_listening(5)] guarded_kept [OF _ adds_listening(6)]
      guarded_kept [OF _ adds_listening(7)]
      split: option.splits dest!: guarded_resume [rotated])

lemma guarded_run: "safety_net_guarded s \<Longrightarrow> safety_net_guarded (run evs s)"
  by (induction evs arbitrary: s) (simp_all add: guarded_step)

text \<open>In every state the page can reach, a pending safety net means the state is speaking.\<close>

lemma safety_net_only_while_speaking:
  assumes "t \<in> set (timers (run evs (mount hasRecognition hasSynthesis)))"
    and "t_cb t = SafetyNet a"
  shows "aiState (run evs (mount hasRecognition hasSynthesis)) = ''speaking''"
proof -
  have "safety_net_guarded (run evs (mount hasRecognition hasSynthesis))"
    by (rule guarded_run) (simp add: safety_net_guarded_def mount_def)
  with assms have "r_aiState (run evs (mount hasRecognition hasSynthesis)) = ''speaking''"
    by (auto simp: safety_net_guarded_def)
  with rendered_reachable [of evs hasRecognition hasSynthesis] show ?thesis
    by (simp add: rendered_def)
qed

subsection \<open>The state is one of seven values\<close>

text \<open>
  The state is held as the string the page passes to \<^verbatim>\<open>setAiState\<close>; the seven values
  are the keys of the animation map. That a reachable state holds one of them is
  therefore a property of the handlers, shown handler by handler.
\<close>

lemma AIState_values_list:
  "AIState_values =
     [''idle'', ''listening'', ''thinking'', ''speaking'', ''unsure'', ''warning'', ''laugh'']"
  by (simp add: AIState_values_def copilotAnimations_def)

lemmas value_defs = AIState_values_list resting_values_def

lemma assigned_valid_kept: "assigned_valid s \<Longrightarrow> assigns_listed s s' \<Longrightarrow> assigned_valid s'"
  by (auto simp: assigned_valid_def assigns_listed_def)

lemma assigns_listed_refl [simp]: "assigns_listed s s"
  by (simp add: assigns_listed_def)

lemma assigns_listed_trans:
  "assigns_listed s s' \<Longrightarrow> assigns_listed s' s'' \<Longrightarrow> assigns_listed s s''"
  by (auto simp: assigns_listed_def)

lemma assigns_setAiState:
  "v \<in> set resting_values \<Longrightarrow> assigns_listed s (setAiState v s)"
  by (auto simp: assigns_listed_def setAiState_def value_defs)

lemma assigns_speakWithBrowserTTS: "assigns_listed s (speakWithBrowserTTS text s)"
  by (simp add: assigns_listed_def speakWithBrowserTTS_def setAiState_def call_def suspend_def
      value_defs)

lemma assigns_speakText_fetched: "assigns_listed s (speakText_fetched i text r s)"
  using assigns_speakWithBrowserTTS [of s "text"]
  by (simp add: assigns_listed_def speakText_fetched_def speakText_not_ok_def speakText_catch_def
      setAiState_def call_def value_defs split: option.splits error_body.splits)

lemma assigns_handleAnalyze: "assigns_listed s (handleAnalyze s)"
  by (simp add: assigns_listed_def handleAnalyze_def setTimeout_def setAiState_def call_def
      suspend_def value_defs)

text \<open>
  The completion of an analysis assigns \<^verbatim>\<open>unsure\<close> on an uncertain answer, and in the same
  run \<^verbatim>\<open>speaking\<close> or \<^verbatim>\<open>idle\<close>: it never ends in \<^verbatim>\<open>unsure\<close>.
\<close>

lemma assigns_handleAnalyze_resume: "assigns_listed s (handleAnalyze_resume r s)"
  by (simp add: assigns_listed_def handleAnalyze_resume_def handleAnalyze_failed_def speakText_def
      setTimeout_def setAiState_def call_def suspend_def Let_def value_defs
      split: option.splits prod.splits)

lemma assigns_audio:
  "assigns_listed s (audio_onended s)"
  "assigns_listed s (audio_onerror e s)"
  "assigns_listed s (audio_play_rejected err s)"
  "assigns_listed s (utterance_onend s)"
  "assigns_listed s (utterance_onerror s)"
  "assigns_listed s (handleStopSpeaking s)"
  "assigns_listed s (handleCopilotClick s)"
  by (simp_all add: assigns_listed_def audio_onended_def audio_onerror_def audio_play_rejected_def
      utterance_onend_def utterance_onerror_def handleStopSpeaking_def handleCopilotClick_def
      setTimeout_def setAiState_def call_def value_defs)

lemma assigns_capture:
  "assigns_listed s (handleStopListening out s)"
  "assigns_listed s (handleStartListening out s)"
  "assigns_listed s (handleStartListening_resume p s)"
  "assigns_listed s (recognition_onstart s)"
  "assigns_listed s (recognition_onresult t s)"
  "assigns_listed s (recognition_onerror e s)"
  "assigns_listed s (recognition_onend s)"
  by (auto simp: assigns_listed_def handleStopListening_def handleStartListening_def
      handleStartListening_resume_def stop_tracks_def recognition_onstart_def
      recognition_onresult_def recognition_onerror_def recognition_onend_def
      setAiState_def call_def suspend_def Let_def value_defs
      split: stop_outcome.splits probe.splits option.splits)

lemma assigns_run_callback: "assigns_listed s (run_callback cb s)"
  by (simp add: assigns_listed_def run_callback_def setAiState_def value_defs
      split: callback.splits)

lemma history_effects [simp]:
  "history (speakingEffect s) = history s"
  "history (speakingEffect_cleanup s) = history s"
  "history (typingEffect_cleanup s) = history s"
  by simp_all

lemma assigns_typingEffect: "assigns_listed s (typingEffect s)"
  by (simp add: assigns_listed_def typingEffect_def setTimeout_def setAiState_def value_defs)

lemma assigns_render: "assigns_listed s (render s)"
proof -
  define s3 where "s3 =
    (let speakingDeps = (aiState s \<noteq> r_aiState s);
         typingDeps = (ingredients s \<noteq> r_ingredients s \<or> analyzing s \<noteq> r_analyzing s
                       \<or> listening s \<noteq> r_listening s);
         s0 = s\<lparr>r_aiState := aiState s, r_ingredients := ingredients s,
                r_analyzing := analyzing s, r_listening := listening s\<rparr>;
         s1 = (if speakingDeps then speakingEffect_cleanup s0 else s0);
         s2 = (if typingDeps then typingEffect_cleanup s1 else s1)
     in if speakingDeps then speakingEffect s2 else s2)"
  have a: "aiState s3 = aiState s" and h: "history s3 = history s"
    by (simp_all add: s3_def Let_def)
  have r: "render s = s3 \<or> render s = typingEffect s3"
    by (simp add: render_def s3_def Let_def)
  have "assigns_listed s s3"
    by (simp add: assigns_listed_def a h)
  with r assigns_typingEffect [of s3] show ?thesis
    by (auto intro: assigns_listed_trans)
qed

lemma assigns_commit: "assigns_listed s (commit s)"
  unfolding commit_def by (rule assigns_listed_trans [OF assigns_render assigns_render])

lemma assigned_valid_commit: "assigned_valid s \<Longrightarrow> assigned_valid (commit s)"
  by (rule assigned_valid_kept [OF _ assigns_commit])

lemma assigned_valid_update [simp]:
  "assigned_valid (s\<lparr>pending := p\<rparr>) = assigned_valid s"
  "assigned_valid (s\<lparr>ingredients := v\<rparr>) = assigned_valid s"
  "assigned_valid (s\<lparr>now := n\<rparr>) = assigned_valid s"
  "assigned_valid (s\<lparr>now := n, timers := ts\<rparr>) = assigned_valid s"
  by (simp_all add: assigned_valid_def)

lemma assigned_valid_fire: "assigned_valid s \<Longrightarrow> assigned_valid (fire t s)"
  unfolding fire_def
  by (rule assigned_valid_commit, rule assigned_valid_kept [OF _ assigns_run_callback]) simp

lemma assigned_valid_fire_due: "assigned_valid s \<Longrightarrow> assigned_valid (fire_due n T s)"
  by (induction n arbitrary: s) (auto simp: assigned_valid_fire split: option.splits)

lemma assigned_valid_resume:
  assumes "assigned_valid s" and "resume i k out s = Some s'"
  shows "assigned_valid s'"
proof -
  from assms(2) have "assigns_listed s s'"
    by (auto simp: resume_def assigns_handleAnalyze_resume assigns_speakText_fetched
        assigns_audio assigns_capture split: continuation.splits outcome.splits)
  with assms(1) show ?thesis by (rule assigned_valid_kept)
qed

lemma assigned_valid_step: "assigned_valid s \<Longrightarrow> assigned_valid (step e s)"
  by (cases e)
    (auto simp: assigned_valid_commit settle_def elapse_def assigned_valid_fire_due
      assigned_valid_kept [OF _ assigns_handleAnalyze] assigned_valid_kept [OF _ assigns_audio(6)]
      assigned_valid_kept [OF _ assigns_audio(7)] assigned_valid_kept [OF _ assigns_capture(1)]
      assigned_valid_kept [OF _ assigns_capture(2)] assigned_valid_kept [OF _ assigns_capture(4)]
      assigned_valid_kept [OF _ assigns_capture(5)] assigned_valid_kept [OF _ assigns_capture(6)]
      assigned_valid_kept [OF _ assigns_capture(7)]
      split: option.splits dest!: assigned_valid_resume [rotated])

lemma assigned_valid_run: "assigned_valid s \<Longrightarrow> assigned_valid (run evs s)"
  by (induction evs arbitrary: s) (simp_all add: assigned_valid_step)

lemma assigned_valid_reachable: "assigned_valid (run evs (mount hasRecognition hasSynthesis))"
  by (rule assigned_valid_run) (simp add: assigned_valid_def mount_def value_defs)

text \<open>
  C2. \<^verbatim>\<open>aiState\<close> is \<^verbatim>\<open>idle\<close> on page load. After every sequence of events it is one of
  the seven values \<^verbatim>\<open>idle\<close>, \<^verbatim>\<open>listening\<close>, \<^verbatim>\<open>thinking\<close>, \<^verbatim>\<open>speaking\<close>, \<^verbatim>\<open>unsure\<close>,
  \<^verbatim>\<open>warning\<close>, \<^verbatim>\<open>laugh\<close>, which are pairwise distinct, and every value a transition has
  assigned is one of the seven.
\<close>

theorem aiState_one_of_seven:
  "aiState (mount hasRecognition hasSynthesis) = ''idle''
   \<and> aiState (run evs (mount hasRecognition hasSynthesis)) \<in> set AIState_values
   \<and> (\<forall>v. SetAiState v \<in> set (history (run evs (mount hasRecognition hasSynthesis)))
          \<longrightarrow> v \<in> set AIState_values)
   \<and> AIState_values =
       [''idle'', ''listening'', ''thinking'', ''speaking'', ''unsure'', ''warning'', ''laugh'']
   \<and> distinct AIState_values"
proof -
  have m: "aiState (mount hasRecognition hasSynthesis) = ''idle''"
    by (simp add: mount_def)
  have sub: "set resting_values \<subseteq> set AIState_values"
    by (simp add: value_defs)
  have v: "assigned_valid (run evs (mount hasRecognition hasSynthesis))"
    by (rule assigned_valid_reachable)
  then have a: "aiState (run evs (mount hasRecognition hasSynthesis)) \<in> set AIState_values"
    using sub by (auto simp: assigned_valid_def)
  have h: "\<forall>v. SetAiState v \<in> set (history (run evs (mount hasRecognition hasSynthesis)))
          \<longrightarrow> v \<in> set AIState_values"
    using v by (simp add: assigned_valid_def)
  have d: "distinct AIState_values"
    by (simp add: AIState_values_list)
  from m a h d AIState_values_list show ?thesis
    by blast
qed

theorem aiState_one_of_seven_witness:
  "history (run [ClickMascot, Elapse 3000] (mount True True))
     = [SetAiState ''laugh'', SetAiState ''idle'']
   \<and> ''laugh'' \<in> set AIState_values \<and> ''idle'' \<in> set AIState_values
   \<and> aiState (run [ClickMascot, Elapse 3000] (mount True True)) = ''idle''"
proof -
  have h: "history (run [ClickMascot, Elapse 3000] (mount True True))
     = [SetAiState ''laugh'', SetAiState ''idle'']"
    by (simp add: page_defs Let_def)
  have a: "aiState (run [ClickMascot, Elapse 3000] (mount True True)) = ''idle''"
    by (simp add: page_defs Let_def)
  from h a aiState_one_of_seven [of True True "[ClickMascot, Elapse 3000]"]
  show ?thesis by simp
qed

text \<open>In no state the page can reach is \<^verbatim>\<open>aiState\<close> the value \<^verbatim>\<open>unsure\<close>.\<close>

lemma unsure_never_rests: "aiState (run evs (mount hasRecognition hasSynthesis)) \<noteq> ''unsure''"
  using assigned_valid_reachable [of evs hasRecognition hasSynthesis]
  by (auto simp: assigned_valid_def resting_values_def)

subsection \<open>Completions of superseded operations\<close>

text \<open>
  C1, as stated, fails. After two analyses in a row the audio of the first answer
  (operation 1) and that of the second (operation 3) are both playing and the state is
  \<^verbatim>\<open>speaking\<close>; when the older audio ends, its handler sets the state to \<^verbatim>\<open>idle\<close>.
\<close>

theorem stale_playback_counterexample:
  "pending (run two_playbacks (mount True True)) = [(1, KAudio), (3, KAudio)]
   \<and> aiState (run two_playbacks (mount True True)) = ''speaking''
   \<and> aiState (step (Settle 1 AudioEnded) (run two_playbacks (mount True True))) = ''idle''"
  by (simp add: example_defs page_defs Let_def lit_0_7_value)

lemma aiState_handleAnalyze_resume:
  "aiState (handleAnalyze_resume r s) =
     (case r of
        None \<Rightarrow> ''warning''
      | Some (response_ok, data) \<Rightarrow>
          if \<not> response_ok then ''warning''
          else if truthy_str (d_text data) then ''speaking'' else ''idle'')"
  by (simp add: handleAnalyze_resume_def handleAnalyze_failed_def speakText_def setAiState_def
      setTimeout_def call_def suspend_def Let_def split: option.splits prod.splits)

text \<open>
  C1, amended. No operation carries a token and no completion is discarded: the
  completion of any pending operation runs its handler, whether or not a newer operation
  of its kind has started. The end, the error and the rejected start of an audio
  playback, and the end and the error of an utterance, set the state to \<^verbatim>\<open>idle\<close>; the
  completion of an analysis sets it to \<^verbatim>\<open>warning\<close> (failure), \<^verbatim>\<open>speaking\<close> (text to
  speak) or \<^verbatim>\<open>idle\<close> (no text); the result, the error and the end of a capture
  session set it to \<^verbatim>\<open>idle\<close>. While an analysis is in flight a click on Analyze does
  nothing, so analyses do not overlap.
\<close>

theorem completions_always_apply:
  "(map_of (pending s) i = Some KAudio \<longrightarrow>
      aiState (step (Settle i AudioEnded) s) = ''idle''
      \<and> aiState (step (Settle i (AudioError e)) s) = ''idle''
      \<and> aiState (step (Settle i (PlayRejected err)) s) = ''idle'')
   \<and> (map_of (pending s) i = Some KUtterance \<longrightarrow>
      aiState (step (Settle i UtteranceEnded) s) = ''idle''
      \<and> aiState (step (Settle i UtteranceFailed) s) = ''idle'')
   \<and> (map_of (pending s) i = Some KAnalyze \<longrightarrow>
      aiState (step (Settle i (AnalyzeSettled r)) s) =
        (case r of
           None \<Rightarrow> ''warning''
         | Some (response_ok, data) \<Rightarrow>
             if \<not> response_ok then ''warning''
             else if truthy_str (d_text data) then ''speaking'' else ''idle''))
   \<and> (recognitionRef s \<longrightarrow>
      aiState (step (RecognitionResult transcript) s) = ''idle''
      \<and> aiState (step (RecognitionError code) s) = ''idle''
      \<and> aiState (step RecognitionEnded s) = ''idle'')
   \<and> (analyzing s \<longrightarrow> step ClickAnalyze s = s)"
proof -
  have a: "map_of (pending s) i = Some KAudio \<longrightarrow>
      aiState (step (Settle i AudioEnded) s) = ''idle''
      \<and> aiState (step (Settle i (AudioError e)) s) = ''idle''
      \<and> aiState (step (Settle i (PlayRejected err)) s) = ''idle''"
    by (simp add: settle_def resume_def aiState_commit_keep audio_onended_def audio_onerror_def
        audio_play_rejected_def call_def setAiState_def)
  have b: "map_of (pending s) i = Some KUtterance \<longrightarrow>
      aiState (step (Settle i UtteranceEnded) s) = ''idle''
      \<and> aiState (step (Settle i UtteranceFailed) s) = ''idle''"
    by (simp add: settle_def resume_def aiState_commit_keep utterance_onend_def
        utterance_onerror_def setAiState_def)
  have c: "map_of (pending s) i = Some KAnalyze \<longrightarrow>
      aiState (step (Settle i (AnalyzeSettled r)) s) =
        (case r of
           None \<Rightarrow> ''warning''
         | Some (response_ok, data) \<Rightarrow>
             if \<not> response_ok then ''warning''
             else if truthy_str (d_text data) then ''speaking'' else ''idle'')"
    by (simp add: settle_def resume_def aiState_commit_keep aiState_handleAnalyze_resume
        split: option.splits prod.splits)
  have d: "analyzing s \<longrightarrow> step ClickAnalyze s = s"
    by (simp add: analyze_disabled_def)
  have e: "recognitionRef s \<longrightarrow>
      aiState (step (RecognitionResult transcript) s) = ''idle''
      \<and> aiState (step (RecognitionError code) s) = ''idle''
      \<and> aiState (step RecognitionEnded s) = ''idle''"
    by (simp add: aiState_commit_keep recognition_onresult_def recognition_onerror_def
        recognition_onend_def setAiState_def split: option.splits)
  from a b c d e show ?thesis by blast
qed

theorem completions_always_apply_witness:
  "map_of (pending (run two_playbacks (mount True True))) 1 = Some KAudio
   \<and> aiState (step (Settle 1 AudioEnded) (run two_playbacks (mount True True))) = ''idle''
   \<and> aiState (step (Settle 1 (AudioError None)) (run two_playbacks (mount True True))) = ''idle''"
proof -
  have p: "map_of (pending (run two_playbacks (mount True True))) 1 = Some KAudio"
    by (simp add: example_defs page_defs Let_def lit_0_7_value)
  with completions_always_apply [of "run two_playbacks (mount True True)" 1 None]
  show ?thesis by simp
qed

subsection \<open>Auto-reset timers\<close>

text \<open>
  C3 at two inputs. A click on the mascot, then an analysis submitted one second later:
  the state is \<^verbatim>\<open>thinking\<close>; two seconds on, the three-second timer of \<^verbatim>\<open>laugh\<close> fires
  and sets \<^verbatim>\<open>idle\<close> while the analysis is still in flight. A failed analysis, then a
  second attempt two seconds later: the five-second timer of \<^verbatim>\<open>warning\<close> does the same.
  Neither timer looks at the state it was scheduled against.
\<close>

theorem stale_timer_resets_thinking:
  "aiState (run laugh_then_analyze (mount True True)) = ''thinking''
   \<and> aiState (run (laugh_then_analyze @ [Elapse 2000]) (mount True True)) = ''idle''
   \<and> analyzing (run (laugh_then_analyze @ [Elapse 2000]) (mount True True))
   \<and> pending (run (laugh_then_analyze @ [Elapse 2000]) (mount True True)) = [(0, KAnalyze)]
   \<and> aiState (run retry_after_failure (mount True True)) = ''thinking''
   \<and> aiState (run (retry_after_failure @ [Elapse 3000]) (mount True True)) = ''idle''
   \<and> analyzing (run (retry_after_failure @ [Elapse 3000]) (mount True True))
   \<and> pending (run (retry_after_failure @ [Elapse 3000]) (mount True True)) = [(1, KAnalyze)]"
  by (simp add: example_defs page_defs Let_def lit_0_7_value)

text \<open>
  The safety net of \<^verbatim>\<open>speaking\<close>, in contrast, is cleared by its effect's cleanup as
  soon as the state changes (\<open>safety_net_only_while_speaking\<close>): after a click on the
  mascot during playback only the debounce of typing and the timer of \<^verbatim>\<open>laugh\<close> are
  pending.
\<close>

lemma safety_net_cleared_on_change:
  "timers (run (speak_requested @ [Settle 1 (SpeakSettled (Some audio_reply))])
      (mount True True))
     = [\<lparr>t_id = 1, t_due = 10000, t_cb = SafetyNet ''speaking''\<rparr>,
        \<lparr>t_id = 2, t_due = 500, t_cb = TypingDebounce ''salt'' False\<rparr>]
   \<and> timers (run (speak_requested @ [Settle 1 (SpeakSettled (Some audio_reply)), ClickMascot])
      (mount True True))
     = [\<lparr>t_id = 2, t_due = 500, t_cb = TypingDebounce ''salt'' False\<rparr>,
        \<lparr>t_id = 3, t_due = 3000, t_cb = ResetIdle\<rparr>]"
  by (simp add: example_defs page_defs Let_def lit_0_7_value)

subsection \<open>The state entered when an analysis completes\<close>

lemma history_handleAnalyze_resume:
  "history (handleAnalyze_resume (Some (True, data)) s) =
     history s
     @ (if uncertain_or_low data then [SetAiState ''unsure''] else [])
     @ (if truthy_str (d_text data) then [SetAiState ''speaking'', FetchSpeak (d_text data)]
        else [SetAiState ''idle''])"
  by (simp add: handleAnalyze_resume_def speakText_def setAiState_def call_def suspend_def Let_def)

text \<open>
  The analysis route of the repository flags every confidence below 0.7 as uncertain.
\<close>

lemma route_flags_low_confidence:
  "r_confidence (analysis_of text) < lit_0_7 \<Longrightarrow> r_isUncertain (analysis_of text)"
  by (simp add: analysis_of_def Let_def)

lemma uncertain_reply_value:
  "analysis_of ''Perhaps this is unclear.''
     = \<lparr>r_text = ''Perhaps this is unclear.'',
        r_confidence = 2476979795053773 / 4503599627370496, r_isUncertain = True\<rparr>"
proof -
  have "uncertaintyCount (toLowerCase ''Perhaps this is unclear.'') = 3"
    by code_simp
  then show ?thesis
    by (simp add: analysis_of_def Let_def confidence_of_3 lit_0_7_value)
qed

text \<open>
  C4 at the answer of the analysis route to the generated text "Perhaps this is
  unclear." (three entries of the lexicon, so \<^verbatim>\<open>isUncertain\<close> is true and the confidence
  is 0.55), and at a response with confidence 0.5. The page assigns \<^verbatim>\<open>unsure\<close> and, in
  the same run, \<^verbatim>\<open>speakText\<close> assigns \<^verbatim>\<open>speaking\<close> before it sends the speech request: the
  state the page has entered when the completion is done, and in which speech output is
  attempted, is \<^verbatim>\<open>speaking\<close>, not \<^verbatim>\<open>unsure\<close>.
\<close>

theorem unsure_overwritten_by_speaking:
  "d_isUncertain (as_data (analysis_of ''Perhaps this is unclear.'')) = Some True
   \<and> history (run uncertain_reply (mount True True))
       = [SetAiState ''thinking'', FetchAnalyze ''salt'', SetAiState ''unsure'',
          SetAiState ''speaking'', FetchSpeak ''Perhaps this is unclear.'']
   \<and> aiState (run uncertain_reply (mount True True)) = ''speaking''
   \<and> d_confidence half_confidence = Some (1 / 2)
   \<and> aiState (handleAnalyze_resume (Some (True, half_confidence))
        (run [Type ''salt'', ClickAnalyze] (mount True True))) = ''speaking''"
  by (simp add: example_defs uncertain_reply_value page_defs Let_def lit_0_7_value)

subsection \<open>The speech fallback\<close>

text \<open>
  C6, as stated, fails in a browser without \<^verbatim>\<open>speechSynthesis\<close>: on the fallback signal
  nothing is spoken and the page shows an error message.
\<close>

theorem fallback_without_synthesis_counterexample:
  "res_ok fallback_reply = False
   \<and> res_json fallback_reply = ErrorData ''Unauthorized'' True
   \<and> pending (run speak_requested (mount True False)) = [(1, KSpeak ''fine'')]
   \<and> analysisError (run speak_requested (mount True False)) = []
   \<and> analysisError (step (Settle 1 (SpeakSettled (Some fallback_reply)))
        (run speak_requested (mount True False)))
       = ''Your browser doesn't support speech synthesis. Please use Chrome, Edge, or Safari.''
   \<and> SynthSpeak ''fine'' \<notin> set (history (step (Settle 1 (SpeakSettled (Some fallback_reply)))
        (run speak_requested (mount True False))))"
  by (simp add: example_defs page_defs Let_def lit_0_7_value)

text \<open>
  C6, amended. When the speech request returns a response that is not OK and whose JSON
  body carries a truthy \<^verbatim>\<open>useBrowserTTS\<close>, \<^verbatim>\<open>speakText\<close> hands the same text to
  \<^verbatim>\<open>speakWithBrowserTTS\<close>. If the browser has \<^verbatim>\<open>speechSynthesis\<close>, the text is spoken
  locally, no error message is set, and the page is \<^verbatim>\<open>idle\<close> once the utterance ends.
  If it has not, nothing is spoken, the unsupported-browser message is set and the page
  is \<^verbatim>\<open>idle\<close>.
\<close>

theorem fallback_to_browser_synthesis:
  "res_ok res = False \<and> res_json res = ErrorData err True \<longrightarrow>
     speakText_fetched i text (Some res) s = speakWithBrowserTTS text s
     \<and> (synthesisRef s \<longrightarrow>
          history (speakWithBrowserTTS text s)
            = history s @ [SetAiState ''speaking'', SynthCancel, SynthSpeak text]
          \<and> pending (speakWithBrowserTTS text s) = pending s @ [(nextOp s, KUtterance)]
          \<and> analysisError (speakWithBrowserTTS text s) = analysisError s
          \<and> aiState (speakWithBrowserTTS text s) = ''speaking''
          \<and> aiState (commit (utterance_onend (speakWithBrowserTTS text s))) = ''idle''
          \<and> analysisError (commit (utterance_onend (speakWithBrowserTTS text s)))
              = analysisError s)
     \<and> (\<not> synthesisRef s \<longrightarrow>
          history (speakWithBrowserTTS text s) = history s @ [SetAiState ''idle'']
          \<and> aiState (speakWithBrowserTTS text s) = ''idle''
          \<and> analysisError (speakWithBrowserTTS text s)
              = ''Your browser doesn't support speech synthesis. Please use Chrome, Edge, or Safari.'')"
proof -
  have a: "res_ok res = False \<and> res_json res = ErrorData err True \<longrightarrow>
     speakText_fetched i text (Some res) s = speakWithBrowserTTS text s"
    by (simp add: speakText_fetched_def speakText_not_ok_def)
  have b: "synthesisRef s \<longrightarrow>
          history (speakWithBrowserTTS text s)
            = history s @ [SetAiState ''speaking'', SynthCancel, SynthSpeak text]
          \<and> pending (speakWithBrowserTTS text s) = pending s @ [(nextOp s, KUtterance)]
          \<and> analysisError (speakWithBrowserTTS text s) = analysisError s
          \<and> aiState (speakWithBrowserTTS text s) = ''speaking''"
    by (simp add: speakWithBrowserTTS_def setAiState_def call_def suspend_def)
  have c: "aiState (commit (utterance_onend (speakWithBrowserTTS text s))) = ''idle''"
    by (simp add: aiState_commit_keep utterance_onend_def setAiState_def)
  have d: "synthesisRef s \<longrightarrow> analysisError (commit (utterance_onend (speakWithBrowserTTS text s)))
              = analysisError s"
    by (simp add: utterance_onend_def speakWithBrowserTTS_def setAiState_def call_def suspend_def)
  have e: "\<not> synthesisRef s \<longrightarrow>
          history (speakWithBrowserTTS text s) = history s @ [SetAiState ''idle'']
          \<and> aiState (speakWithBrowserTTS text s) = ''idle''
          \<and> analysisError (speakWithBrowserTTS text s)
              = ''Your browser doesn't support speech synthesis. Please use Chrome, Edge, or Safari.''"
    by (simp add: speakWithBrowserTTS_def setAiState_def)
  from a b c d e show ?thesis by blast
qed

theorem fallback_to_browser_synthesis_witness:
  "res_ok fallback_reply = False
   \<and> res_json fallback_reply = ErrorData ''Unauthorized'' True
   \<and> synthesisRef (run speak_requested (mount True True))
   \<and> speakText_fetched 1 ''fine'' (Some fallback_reply) (run speak_requested (mount True True))
       = speakWithBrowserTTS ''fine'' (run speak_requested (mount True True))
   \<and> history (speakWithBrowserTTS ''fine'' (run speak_requested (mount True True)))
       = [SetAiState ''thinking'', FetchAnalyze ''salt'', SetAiState ''speaking'', FetchSpeak ''fine'',
          SetAiState ''speaking'', SynthCancel, SynthSpeak ''fine'']
   \<and> analysisError (speakWithBrowserTTS ''fine'' (run speak_requested (mount True True))) = []"
proof -
  have h: "res_ok fallback_reply = False \<and> res_json fallback_reply = ErrorData ''Unauthorized'' True"
    by (simp add: fallback_reply_def)
  have y: "synthesisRef (run speak_requested (mount True True))"
    by (simp add: example_defs page_defs Let_def lit_0_7_value)
  have hist: "history (run speak_requested (mount True True))
       = [SetAiState ''thinking'', FetchAnalyze ''salt'', SetAiState ''speaking'', FetchSpeak ''fine'']"
    by (simp add: example_defs page_defs Let_def lit_0_7_value)
  have err: "analysisError (run speak_requested (mount True True)) = []"
    by (simp add: example_defs page_defs Let_def lit_0_7_value)
  from h y hist err
    fallback_to_browser_synthesis [of fallback_reply "''Unauthorized''" 1 "''fine''"
      "run speak_requested (mount True True)"]
  show ?thesis by simp
qed

subsection \<open>Starting voice capture\<close>

lemma probe_denied_message_nonempty: "probe_denied_message error \<noteq> []"
  by (simp add: probe_denied_message_def truthy_str_def)

text \<open>
  C7. With recognition initialised and capture off, \<^verbatim>\<open>handleStartListening\<close> first asks
  for the microphone and does nothing else; its synchronous part never starts
  recognition. When the probe is granted, every track of the stream is stopped before
  \<^verbatim>\<open>recognition.start()\<close>. When the probe is denied or fails, recognition is not started,
  the message of the error's class is set (it is never empty), and the state is
  \<^verbatim>\<open>idle\<close>. The class is read from the name of the error: \<^verbatim>\<open>NotAllowedError\<close> and
  \<^verbatim>\<open>PermissionDeniedError\<close> give the message of a denied permission, \<^verbatim>\<open>NotFoundError\<close>
  and \<^verbatim>\<open>DevicesNotFoundError\<close> that of a missing microphone, \<^verbatim>\<open>NotReadableError\<close> and
  \<^verbatim>\<open>TrackStartError\<close> that of a microphone in use, and every other name the message of
  the error itself, or "Microphone access denied." when it has none. The four fixed
  messages differ from each other.
\<close>

theorem probe_before_recognition:
  "(recognitionRef s \<and> \<not> listening s \<longrightarrow>
      history (handleStartListening out s) = history s @ [GetUserMedia]
      \<and> pending (handleStartListening out s) = pending s @ [(nextOp s, KMicProbe)])
   \<and> RecognitionStart \<notin> set (drop (length (history s)) (history (handleStartListening out s)))
   \<and> history (handleStartListening_resume (Granted n None) s)
       = history s @ map TrackStop [0..<n] @ [RecognitionStart, SetAiState ''listening'']
   \<and> history (handleStartListening_resume (Granted n (Some error)) s)
       = history s @ map TrackStop [0..<n] @ [SetAiState ''idle'']
   \<and> history (handleStartListening_resume (Denied error) s) = history s @ [SetAiState ''idle'']
   \<and> micError (handleStartListening_resume (Denied error) s) = Some (probe_denied_message error)
   \<and> probe_denied_message error \<noteq> []
   \<and> aiState (handleStartListening_resume (Denied error) s) = ''idle''
   \<and> aiState (commit (handleStartListening_resume (Denied error) s)) = ''idle''
   \<and> (err_name error \<in> {''NotAllowedError'', ''PermissionDeniedError''} \<longrightarrow>
        micError (handleStartListening_resume (Denied error) s) = Some
          ''Microphone permission denied. Please allow microphone access in your browser settings and try again.'')
   \<and> (err_name error \<in> {''NotFoundError'', ''DevicesNotFoundError''} \<longrightarrow>
        micError (handleStartListening_resume (Denied error) s) = Some
          ''No microphone found. Please connect a microphone and try again.'')
   \<and> (err_name error \<in> {''NotReadableError'', ''TrackStartError''} \<longrightarrow>
        micError (handleStartListening_resume (Denied error) s) = Some
          ''Microphone is being used by another application. Please close other apps using the microphone.'')
   \<and> (err_name error \<notin> {''NotAllowedError'', ''PermissionDeniedError'', ''NotFoundError'',
          ''DevicesNotFoundError'', ''NotReadableError'', ''TrackStartError''} \<longrightarrow>
        micError (handleStartListening_resume (Denied error) s) = Some
          (if err_message error = [] then ''Microphone access denied.'' else err_message error))
   \<and> distinct
        [''Microphone permission denied. Please allow microphone access in your browser settings and try again.'',
         ''No microphone found. Please connect a microphone and try again.'',
         ''Microphone is being used by another application. Please close other apps using the microphone.'',
         ''Microphone access denied.'']"
proof -
  have a: "recognitionRef s \<and> \<not> listening s \<longrightarrow>
      history (handleStartListening out s) = history s @ [GetUserMedia]
      \<and> pending (handleStartListening out s) = pending s @ [(nextOp s, KMicProbe)]"
    by (simp add: handleStartListening_def call_def suspend_def)
  have b: "RecognitionStart \<notin> set (drop (length (history s)) (history (handleStartListening out s)))"
    by (cases out)
      (simp_all add: handleStartListening_def handleStopListening_def call_def suspend_def
        setAiState_def)
  have c: "history (handleStartListening_resume (Granted n None) s)
       = history s @ map TrackStop [0..<n] @ [RecognitionStart, SetAiState ''listening'']"
    by (simp add: handleStartListening_resume_def stop_tracks_def call_def setAiState_def Let_def)
  have d: "history (handleStartListening_resume (Granted n (Some error)) s)
       = history s @ map TrackStop [0..<n] @ [SetAiState ''idle'']"
    by (simp add: handleStartListening_resume_def stop_tracks_def call_def setAiState_def Let_def)
  have e1: "history (handleStartListening_resume (Denied error) s) = history s @ [SetAiState ''idle'']"
    by (simp add: handleStartListening_resume_def setAiState_def)
  have e2: "micError (handleStartListening_resume (Denied error) s) = Some (probe_denied_message error)"
    by (simp add: handleStartListening_resume_def setAiState_def)
  have e3: "aiState (handleStartListening_resume (Denied error) s) = ''idle''"
    by (simp add: handleStartListening_resume_def setAiState_def)
  have f: "aiState (commit (handleStartListening_resume (Denied error) s)) = ''idle''"
    by (simp add: aiState_commit_keep handleStartListening_resume_def setAiState_def)
  have g: "err_name error \<in> {''NotAllowedError'', ''PermissionDeniedError''} \<longrightarrow>
        micError (handleStartListening_resume (Denied error) s) = Some
          ''Microphone permission denied. Please allow microphone access in your browser settings and try again.''"
    unfolding e2 by (simp add: probe_denied_message_def)
  have h: "err_name error \<in> {''NotFoundError'', ''DevicesNotFoundError''} \<longrightarrow>
        micError (handleStartListening_resume (Denied error) s) = Some
          ''No microphone found. Please connect a microphone and try again.''"
    unfolding e2 by (auto simp: probe_denied_message_def)
  have i: "err_name error \<in> {''NotReadableError'', ''TrackStartError''} \<longrightarrow>
        micError (handleStartListening_resume (Denied error) s) = Some
          ''Microphone is being used by another application. Please close other apps using the microphone.''"
    unfolding e2 by (auto simp: probe_denied_message_def)
  have j: "err_name error \<notin> {''NotAllowedError'', ''PermissionDeniedError'', ''NotFoundError'',
          ''DevicesNotFoundError'', ''NotReadableError'', ''TrackStartError''} \<longrightarrow>
        micError (handleStartListening_resume (Denied error) s) = Some
          (if err_message error = [] then ''Microphone access denied.'' else err_message error)"
    unfolding e2 by (simp add: probe_denied_message_def truthy_str_def)
  have k: "distinct
        [''Microphone permission denied. Please allow microphone access in your browser settings and try again.'',
         ''No microphone found. Please connect a microphone and try again.'',
         ''Microphone is being used by another application. Please close other apps using the microphone.'',
         ''Microphone access denied.'']"
    by simp
  note n = probe_denied_message_nonempty [of error]
  show ?thesis
    by (intro conjI) (fact a b c d e1 e2 e3 f g h i j k n)+
qed


theorem probe_before_recognition_witness:
  "recognitionRef (mount True True) \<and> \<not> listening (mount True True)
   \<and> history (handleStartListening StopOk (mount True True)) = [GetUserMedia]
   \<and> pending (handleStartListening StopOk (mount True True)) = [(0, KMicProbe)]
   \<and> history (handleStartListening_resume (Granted 1 None)
        (handleStartListening StopOk (mount True True)))
       = [GetUserMedia, TrackStop 0, RecognitionStart, SetAiState ''listening'']
   \<and> history (handleStartListening_resume (Denied permission_denied)
        (handleStartListening StopOk (mount True True)))
       = [GetUserMedia, SetAiState ''idle'']
   \<and> micError (handleStartListening_resume (Denied permission_denied)
        (handleStartListening StopOk (mount True True)))
       = Some ''Microphone permission denied. Please allow microphone access in your browser settings and try again.''
   \<and> micError (handleStartListening_resume
        (Denied \<lparr>err_name = ''NotFoundError'', err_message = ''Requested device not found''\<rparr>)
        (mount True True))
       = Some ''No microphone found. Please connect a microphone and try again.''
   \<and> micError (handleStartListening_resume
        (Denied \<lparr>err_name = ''NotReadableError'', err_message = ''Could not start audio source''\<rparr>)
        (mount True True))
       = Some ''Microphone is being used by another application. Please close other apps using the microphone.''
   \<and> micError (handleStartListening_resume
        (Denied \<lparr>err_name = ''AbortError'', err_message = ''Starting audio failed''\<rparr>)
        (mount True True))
       = Some ''Starting audio failed''"
proof -
  let ?s = "handleStartListening StopOk (mount True True)"
  have h: "recognitionRef (mount True True) \<and> \<not> listening (mount True True)"
    by (simp add: mount_def)
  have m: "history (mount True True) = []" "pending (mount True True) = []"
    "nextOp (mount True True) = 0"
    by (simp_all add: mount_def)
  have w1: "history ?s = [GetUserMedia] \<and> pending ?s = [(0, KMicProbe)]"
    using probe_before_recognition [of "mount True True" StopOk 1 permission_denied,
        THEN conjunct1] h
    by (simp add: m)
  have w2: "history (handleStartListening_resume (Granted 1 None) ?s)
       = [GetUserMedia, TrackStop 0, RecognitionStart, SetAiState ''listening'']"
    using probe_before_recognition [of ?s StopOk 1 permission_denied,
        THEN conjunct2, THEN conjunct2, THEN conjunct1]
    by (simp add: w1)
  have w3: "history (handleStartListening_resume (Denied permission_denied) ?s)
       = [GetUserMedia, SetAiState ''idle'']"
    using probe_before_recognition [of ?s StopOk 1 permission_denied,
        THEN conjunct2, THEN conjunct2, THEN conjunct2, THEN conjunct2, THEN conjunct1]
    by (simp add: w1)
  have w4: "micError (handleStartListening_resume (Denied permission_denied) ?s)
       = Some ''Microphone permission denied. Please allow microphone access in your browser settings and try again.''"
    using probe_before_recognition [of ?s StopOk 1 permission_denied,
        THEN conjunct2, THEN conjunct2, THEN conjunct2, THEN conjunct2, THEN conjunct2,
        THEN conjunct2, THEN conjunct2, THEN conjunct2, THEN conjunct2, THEN conjunct1]
    by (simp add: permission_denied_def)
  have w5: "micError (handleStartListening_resume
        (Denied \<lparr>err_name = ''NotFoundError'', err_message = ''Requested device not found''\<rparr>)
        (mount True True))
       = Some ''No microphone found. Please connect a microphone and try again.''"
    using probe_before_recognition [of "mount True True" StopOk 1
        "\<lparr>err_name = ''NotFoundError'', err_message = ''Requested device not found''\<rparr>",
        THEN conjunct2, THEN conjunct2, THEN conjunct2, THEN conjunct2, THEN conjunct2,
        THEN conjunct2, THEN conjunct2, THEN conjunct2, THEN conjunct2, THEN conjunct2,
        THEN conjunct1]
    by simp
  have w6: "micError (handleStartListening_resume
        (Denied \<lparr>err_name = ''NotReadableError'', err_message = ''Could not start audio source''\<rparr>)
        (mount True True))
       = Some ''Microphone is being used by another application. Please close other apps using the microphone.''"
    using probe_before_recognition [of "mount True True" StopOk 1
        "\<lparr>err_name = ''NotReadableError'', err_message = ''Could not start audio source''\<rparr>",
        THEN conjunct2, THEN conjunct2, THEN conjunct2, THEN conjunct2, THEN conjunct2,
        THEN conjunct2, THEN conjunct2, THEN conjunct2, THEN conjunct2, THEN conjunct2,
        THEN conjunct2, THEN conjunct1]
    by simp
  have w7: "micError (handleStartListening_resume
        (Denied \<lparr>err_name = ''AbortError'', err_message = ''Starting audio failed''\<rparr>)
        (mount True True))
       = Some ''Starting audio failed''"
    using probe_before_recognition [of "mount True True" StopOk 1
        "\<lparr>err_name = ''AbortError'', err_message = ''Starting audio failed''\<rparr>",
        THEN conjunct2, THEN conjunct2, THEN conjunct2, THEN conjunct2, THEN conjunct2,
        THEN conjunct2, THEN conjunct2, THEN conjunct2, THEN conjunct2, THEN conjunct2,
        THEN conjunct2, THEN conjunct2, THEN conjunct1]
    by simp
  show ?thesis
    by (intro conjI) (fact h [THEN conjunct1] h [THEN conjunct2] w1 [THEN conjunct1]
        w1 [THEN conjunct2] w2 w3 w4 w5 w6 w7)+
qed

subsection \<open>Timer handles of reachable states\<close>

lemma handles_valid_kept: "handles_valid s \<Longrightarrow> keeps_handles s s' \<Longrightarrow> handles_valid s'"
  by (auto simp: handles_valid_def keeps_handles_def)

lemma keeps_handles_refl [simp]: "keeps_handles s s"
  by (simp add: keeps_handles_def)

lemma keeps_speakWithBrowserTTS: "keeps_handles s (speakWithBrowserTTS text s)"
  by (simp add: keeps_handles_def speakWithBrowserTTS_def setAiState_def call_def suspend_def)

lemma keeps_speakText: "keeps_handles s (speakText text s)"
  by (simp add: keeps_handles_def speakText_def setAiState_def call_def suspend_def)

lemma keeps_speakText_fetched: "keeps_handles s (speakText_fetched i text r s)"
  using keeps_speakWithBrowserTTS [of s "text"]
  by (simp add: keeps_handles_def speakText_fetched_def speakText_not_ok_def speakText_catch_def
      setAiState_def call_def split: option.splits error_body.splits)

lemma keeps_handleAnalyze: "keeps_handles s (handleAnalyze s)"
  by (simp add: keeps_handles_def handleAnalyze_def setTimeout_def setAiState_def call_def
      suspend_def)

lemma keeps_handleAnalyze_resume: "keeps_handles s (handleAnalyze_resume r s)"
  by (simp add: keeps_handles_def handleAnalyze_resume_def handleAnalyze_failed_def speakText_def
      setTimeout_def setAiState_def call_def suspend_def Let_def split: option.splits prod.splits)

lemma keeps_audio:
  "keeps_handles s (audio_onended s)"
  "keeps_handles s (audio_onerror e s)"
  "keeps_handles s (audio_play_rejected err s)"
  "keeps_handles s (utterance_onend s)"
  "keeps_handles s (utterance_onerror s)"
  "keeps_handles s (handleStopSpeaking s)"
  "keeps_handles s (handleCopilotClick s)"
  by (simp_all add: keeps_handles_def audio_onended_def audio_onerror_def audio_play_rejected_def
      utterance_onend_def utterance_onerror_def handleStopSpeaking_def handleCopilotClick_def
      setTimeout_def setAiState_def call_def)

lemma keeps_listening:
  "keeps_handles s (handleStopListening out s)"
  "keeps_handles s (handleStartListening out s)"
  "keeps_handles s (handleStartListening_resume p s)"
  "keeps_handles s (recognition_onstart s)"
  "keeps_handles s (recognition_onresult t s)"
  "keeps_handles s (recognition_onerror e s)"
  "keeps_handles s (recognition_onend s)"
  by (simp_all add: keeps_handles_def handleStopListening_def handleStartListening_def
      handleStartListening_resume_def stop_tracks_def recognition_onstart_def
      recognition_onresult_def recognition_onerror_def recognition_onend_def
      setAiState_def call_def suspend_def Let_def
      split: stop_outcome.splits probe.splits option.splits)

lemma keeps_run_callback: "keeps_handles s (run_callback cb s)"
  by (simp add: keeps_handles_def run_callback_def setAiState_def split: callback.splits)

lemma handles_valid_render: "handles_valid s \<Longrightarrow> handles_valid (render s)"
  by (auto simp: handles_valid_def render_def Let_def speakingEffect_def typingEffect_def
      speakingEffect_cleanup_def typingEffect_cleanup_def setTimeout_def clearTimeout_def
      setAiState_def split: option.splits)

lemma handles_valid_commit: "handles_valid s \<Longrightarrow> handles_valid (commit s)"
  by (simp add: commit_def handles_valid_render)

lemma handles_valid_update [simp]:
  "handles_valid (s\<lparr>pending := p\<rparr>) = handles_valid s"
  "handles_valid (s\<lparr>ingredients := v\<rparr>) = handles_valid s"
  "handles_valid (s\<lparr>now := n, timers := ts\<rparr>) = handles_valid s"
  "handles_valid (s\<lparr>now := n\<rparr>) = handles_valid s"
  by (simp_all add: handles_valid_def)

lemma handles_valid_fire: "handles_valid s \<Longrightarrow> handles_valid (fire t s)"
  unfolding fire_def
  by (rule handles_valid_commit, rule handles_valid_kept [OF _ keeps_run_callback]) simp

lemma handles_valid_fire_due: "handles_valid s \<Longrightarrow> handles_valid (fire_due n T s)"
  by (induction n arbitrary: s) (auto simp: handles_valid_fire split: option.splits)

lemma handles_valid_elapse: "handles_valid s \<Longrightarrow> handles_valid (elapse ms s)"
  by (simp add: elapse_def handles_valid_fire_due)

lemma handles_valid_resume:
  assumes "handles_valid s" and "resume i k out s = Some s'"
  shows "handles_valid s'"
proof -
  from assms(2) have "keeps_handles s s'"
    by (auto simp: resume_def keeps_handleAnalyze_resume keeps_speakText_fetched keeps_audio
        keeps_listening split: continuation.splits outcome.splits)
  with assms(1) show ?thesis by (rule handles_valid_kept)
qed

lemma handles_valid_settle: "handles_valid s \<Longrightarrow> handles_valid (settle i out s)"
  by (auto simp: settle_def handles_valid_commit split: option.splits
      dest!: handles_valid_resume [rotated])

lemma handles_valid_step: "handles_valid s \<Longrightarrow> handles_valid (step e s)"
proof (cases e)
  case (Type v)
  assume "handles_valid s"
  then show ?thesis using Type by (simp add: handles_valid_commit)
next
  case ClickAnalyze
  assume "handles_valid s"
  then show ?thesis using ClickAnalyze
    by (simp add: handles_valid_commit handles_valid_kept [OF _ keeps_handleAnalyze])
next
  case ClickMascot
  assume "handles_valid s"
  then show ?thesis using ClickMascot
    by (simp add: handles_valid_commit handles_valid_kept [OF _ keeps_audio(7)])
next
  case (ClickMic out)
  assume "handles_valid s"
  then show ?thesis using ClickMic
    by (simp add: handles_valid_commit handles_valid_kept [OF _ keeps_listening(1)]
        handles_valid_kept [OF _ keeps_listening(2)])
next
  case ClickStopSpeaking
  assume "handles_valid s"
  then show ?thesis using ClickStopSpeaking
    by (simp add: handles_valid_commit handles_valid_kept [OF _ keeps_audio(6)])
next
  case (Settle i out)
  assume "handles_valid s"
  then show ?thesis using Settle by (simp add: handles_valid_settle)
next
  case RecognitionStarted
  assume "handles_valid s"
  then show ?thesis using RecognitionStarted
    by (simp add: handles_valid_commit handles_valid_kept [OF _ keeps_listening(4)])
next
  case (RecognitionResult t)
  assume "handles_valid s"
  then show ?thesis using RecognitionResult
    by (simp add: handles_valid_commit handles_valid_kept [OF _ keeps_listening(5)])
next
  case (RecognitionError err)
  assume "handles_valid s"
  then show ?thesis using RecognitionError
    by (simp add: handles_valid_commit handles_valid_kept [OF _ keeps_listening(6)])
next
  case RecognitionEnded
  assume "handles_valid s"
  then show ?thesis using RecognitionEnded
    by (simp add: handles_valid_commit handles_valid_kept [OF _ keeps_listening(7)])
next
  case (Elapse ms)
  assume "handles_valid s"
  then show ?thesis using Elapse by (simp add: handles_valid_elapse)
qed

lemma handles_valid_run: "handles_valid s \<Longrightarrow> handles_valid (run evs s)"
  by (induction evs arbitrary: s) (simp_all add: handles_valid_step)

lemma handles_valid_mount: "handles_valid (mount hasRecognition hasSynthesis)"
  by (simp add: handles_valid_def mount_def)

lemma handles_valid_reachable: "handles_valid (run evs (mount hasRecognition hasSynthesis))"
  by (rule handles_valid_run [OF handles_valid_mount])

subsection \<open>Submitting blank input\<close>

lemma blank_handleAnalyze:
  assumes "trim (ingredients s) = []"
  shows "handleAnalyze s =
     setTimeout ResetIdle 3000
       (setAiState ''warning'' (s\<lparr>analysisError := ''Please enter ingredients to analyze''\<rparr>))"
  using assms by (simp add: handleAnalyze_def truthy_str_def)

text \<open>
  C5. In every state the page can reach, with blank input (empty after \<^verbatim>\<open>trim\<close>) and no
  timer pending, \<^verbatim>\<open>handleAnalyze\<close> starts no analysis request; it sets the message
  "Please enter ingredients to analyze" and the state \<^verbatim>\<open>warning\<close>, which stays for any
  time short of 3000 ms and is \<^verbatim>\<open>idle\<close> after 3000 ms, when nothing else happens.
\<close>

theorem blank_submit_warns_for_three_seconds:
  assumes "s = run evs (mount hasRecognition hasSynthesis)"
    and "trim (ingredients s) = []"
    and "timers s = []"
  shows "history (handleAnalyze s) = history s @ [SetAiState ''warning'']
    \<and> pending (handleAnalyze s) = pending s
    \<and> analysisError (commit (handleAnalyze s)) = ''Please enter ingredients to analyze''
    \<and> aiState (commit (handleAnalyze s)) = ''warning''
    \<and> (\<forall>ms < 3000. aiState (elapse ms (commit (handleAnalyze s))) = ''warning'')
    \<and> aiState (elapse 3000 (commit (handleAnalyze s))) = ''idle''"
proof -
  define t where "t = \<lparr>t_id = nextTimer s, t_due = now s + 3000, t_cb = ResetIdle\<rparr>"
  define s1 where "s1 = handleAnalyze s"
  have hv: "handles_valid s"
    unfolding assms(1) by (rule handles_valid_reachable)
  have s1: "s1 = setTimeout ResetIdle 3000
       (setAiState ''warning'' (s\<lparr>analysisError := ''Please enter ingredients to analyze''\<rparr>))"
    unfolding s1_def using assms(2) by (rule blank_handleAnalyze)
  have hist: "history s1 = history s @ [SetAiState ''warning'']"
    and pend: "pending s1 = pending s"
    and err: "analysisError s1 = ''Please enter ingredients to analyze''"
    and ai: "aiState s1 = ''warning''"
    and ingr: "ingredients s1 = ingredients s"
    and tm: "timers s1 = [t]"
    and nw: "now s1 = now s"
    and sc: "speakingCleanup s1 = speakingCleanup s"
    and tc: "typingCleanup s1 = typingCleanup s"
    by (simp_all add: s1 setTimeout_def setAiState_def assms(3) t_def)
  have blank: "\<not> truthy_str (trim (ingredients s1))"
    by (simp add: ingr assms(2) truthy_str_def)
  have fresh: "\<forall>u\<in>set (timers s1).
      Some (t_id u) \<noteq> speakingCleanup s1 \<and> Some (t_id u) \<noteq> typingCleanup s1"
  proof -
    have "Some (nextTimer s) \<noteq> speakingCleanup s"
      using hv unfolding handles_valid_def by (metis less_irrefl)
    moreover have "Some (nextTimer s) \<noteq> typingCleanup s"
      using hv unfolding handles_valid_def by (metis less_irrefl)
    ultimately show ?thesis
      by (simp add: tm sc tc t_def)
  qed
  have ct: "timers (commit s1) = [t]"
    using commit_quiet(1) [OF _ blank _ fresh] by (simp add: ai tm)
  have ca: "aiState (commit s1) = ''warning''"
    by (simp add: aiState_commit_keep ai)
  have cn: "now (commit s1) = now s"
    by (simp add: nw)
  have before: "aiState (elapse ms (commit s1)) = ''warning''" if "ms < 3000" for ms
    using that by (simp add: elapse_def ct nw ca t_def)
  have fired: "aiState (fire t (commit s1)) = ''idle''"
    by (simp add: fire_def t_def run_callback_def aiState_commit_keep setAiState_def)
  have after: "aiState (elapse 3000 (commit s1)) = ''idle''"
    using fired by (simp add: elapse_def ct nw t_def)
  from hist pend err ca before after show ?thesis
    unfolding s1_def by simp
qed

theorem blank_submit_warns_for_three_seconds_witness:
  "trim (ingredients (run [Type ''  ''] (mount True True))) = []
   \<and> timers (run [Type ''  ''] (mount True True)) = []
   \<and> aiState (commit (handleAnalyze (run [Type ''  ''] (mount True True)))) = ''warning''
   \<and> aiState (elapse 2999 (commit (handleAnalyze (run [Type ''  ''] (mount True True))))) = ''warning''
   \<and> aiState (elapse 3000 (commit (handleAnalyze (run [Type ''  ''] (mount True True))))) = ''idle''"
proof -
  have b: "trim (ingredients (run [Type ''  ''] (mount True True))) = []"
    by (simp add: page_defs Let_def)
  have t: "timers (run [Type ''  ''] (mount True True)) = []"
    by (simp add: page_defs Let_def)
  from blank_submit_warns_for_three_seconds [OF refl b t] b t
  show ?thesis by simp
qed

end
